theory Spec2Isabelle
  imports Main "HOL-Library.AList"
begin

section \<open>JavaScript strings\<close>

text \<open>
  Texts are lists of 8-bit character codes (the code units below 256). The character
  predicates follow the ECMAScript definitions restricted to that range: \<open>\d\<close> is
  \<open>0-9\<close>, \<open>\s\<close> (and the characters removed by \<open>trim\<close>) is TAB, LF, VT, FF, CR, space
  and NBSP, and \<open>.\<close> excludes the line terminators LF and CR. Under the \<open>i\<close> flag two
  characters match when their canonical forms are equal; every pattern of the program
  is written in ASCII, for which only the ASCII letters have a second case.
\<close>

definition is_digit :: "char \<Rightarrow> bool" where
  "is_digit c = (c \<in> set ''0123456789'')"

definition is_space :: "char \<Rightarrow> bool" where
  "is_space c =
     (c \<in> set [CHR 0x09, CHR 0x0A, CHR 0x0B, CHR 0x0C, CHR 0x0D, CHR '' '', CHR 0xA0])"

definition is_line_terminator :: "char \<Rightarrow> bool" where
  "is_line_terminator c = (c \<in> set [CHR 0x0A, CHR 0x0D])"

definition canonicalize :: "char \<Rightarrow> char" where
  "canonicalize c =
     (case map_of (zip ''abcdefghijklmnopqrstuvwxyz'' ''ABCDEFGHIJKLMNOPQRSTUVWXYZ'') c of
        Some u \<Rightarrow> u
      | None \<Rightarrow> c)"

text \<open>\<open>String.prototype.trim\<close>.\<close>

definition trim :: "string \<Rightarrow> string" where
  "trim s = rev (dropWhile is_space (rev (dropWhile is_space s)))"

text \<open>\<open>s.split('\n')\<close>: always at least one piece.\<close>

fun split_lines :: "string \<Rightarrow> string list" where
  "split_lines [] = [[]]"
| "split_lines (c # cs) =
     (if c = CHR 0x0A then [] # split_lines cs
      else (case split_lines cs of
              [] \<Rightarrow> [[c]]
            | l # ls \<Rightarrow> (c # l) # ls))"

text \<open>\<open>xs.join(' ')\<close>.\<close>

fun join_space :: "string list \<Rightarrow> string" where
  "join_space [] = []"
| "join_space [x] = x"
| "join_space (x # y # ys) = x @ '' '' @ join_space (y # ys)"

text \<open>\<open>parseInt\<close> on a run of decimal digits.\<close>

definition digit_value :: "char \<Rightarrow> int" where
  "digit_value c = int (of_char c) - 48"

definition parseInt :: "string \<Rightarrow> int" where
  "parseInt ds = foldl (\<lambda>n c. 10 * n + digit_value c) 0 ds"

text \<open>Truthiness of a possibly absent string: \<open>null\<close>, \<open>undefined\<close> and \<open>''\<close> are falsy.\<close>

fun truthy :: "string option \<Rightarrow> bool" where
  "truthy None = False"
| "truthy (Some s) = (s \<noteq> [])"

text \<open>\<open>a || d\<close> for a possibly absent string \<open>a\<close> and a string \<open>d\<close>, and \<open>a || null\<close>.\<close>

fun or_else :: "string option \<Rightarrow> string \<Rightarrow> string" where
  "or_else None d = d"
| "or_else (Some s) d = (if s = [] then d else s)"

fun or_null :: "string option \<Rightarrow> string option" where
  "or_null None = None"
| "or_null (Some s) = (if s = [] then None else Some s)"

text \<open>A number in a template literal.\<close>

definition digit_char :: "nat \<Rightarrow> char" where
  "digit_char n = char_of (48 + n)"

function show_nat :: "nat \<Rightarrow> string" where
  "show_nat n = (if n < 10 then [digit_char n] else show_nat (n div 10) @ [digit_char (n mod 10)])"
  by pat_completeness auto
termination
  by (relation "measure (\<lambda>n. n)") auto

definition show_int :: "int \<Rightarrow> string" where
  "show_int i = (if i < 0 then ''-'' @ show_nat (nat (- i)) else show_nat (nat i))"

section \<open>Regular expressions\<close>

text \<open>
  The regular expressions of the program, all with the \<open>i\<close> flag, as a datatype, and the
  backtracking matcher of ECMAScript as a list of successes in priority order: the head
  of \<open>run r (caps, s)\<close> is the match that \<open>RegExp.prototype.exec\<close> finds for \<open>r\<close> at the
  start of \<open>s\<close>. \<open>Rep greedy lo hi r\<close> is a quantifier (\<open>r*\<close>, \<open>r+\<close>, \<open>r?\<close>, \<open>r{lo,hi}\<close>,
  and the lazy forms with \<open>greedy = False\<close>); an iteration has to consume input, which
  every quantified pattern of the program does. \<open>Grp n r\<close> is the \<open>n\<close>-th capturing
  group and \<open>Eos\<close> is \<open>$\<close> (no pattern has the \<open>m\<close> flag).
\<close>

datatype citem = Ch char | Digit | Space

datatype cclass = Dot | OneOf "citem list" | NoneOf "citem list"

datatype rx =
    Lit string
  | Cls cclass
  | Seq rx rx
  | Alt rx rx
  | Rep bool nat "nat option" rx
  | Grp nat rx
  | Eos

fun citem_ok :: "citem \<Rightarrow> char \<Rightarrow> bool" where
  "citem_ok (Ch p) c = (canonicalize p = canonicalize c)"
| "citem_ok Digit c = is_digit c"
| "citem_ok Space c = is_space c"

fun cclass_ok :: "cclass \<Rightarrow> char \<Rightarrow> bool" where
  "cclass_ok Dot c = (\<not> is_line_terminator c)"
| "cclass_ok (OneOf items) c = list_ex (\<lambda>i. citem_ok i c) items"
| "cclass_ok (NoneOf items) c = (\<not> list_ex (\<lambda>i. citem_ok i c) items)"

fun lit_rest :: "string \<Rightarrow> string \<Rightarrow> string option" where
  "lit_rest [] s = Some s"
| "lit_rest (p # ps) [] = None"
| "lit_rest (p # ps) (c # cs) =
     (if canonicalize p = canonicalize c then lit_rest ps cs else None)"

type_synonym caps = "(nat \<times> string) list"

type_synonym mstate = "caps \<times> string"

fun dec_max :: "nat option \<Rightarrow> nat option" where
  "dec_max None = None"
| "dec_max (Some n) = Some (n - 1)"

fun rx_size :: "rx \<Rightarrow> nat" where
  "rx_size (Lit w) = 1"
| "rx_size (Cls k) = 1"
| "rx_size (Seq a b) = Suc (rx_size a + rx_size b)"
| "rx_size (Alt a b) = Suc (rx_size a + rx_size b)"
| "rx_size (Rep g lo hi r) = Suc (rx_size r)"
| "rx_size (Grp n r) = Suc (rx_size r)"
| "rx_size Eos = 1"

function run :: "rx \<Rightarrow> mstate \<Rightarrow> mstate list" where
  "run (Lit w) (cp, s) = (case lit_rest w s of None \<Rightarrow> [] | Some t \<Rightarrow> [(cp, t)])"
| "run (Cls k) (cp, s) =
     (case s of [] \<Rightarrow> [] | c # cs \<Rightarrow> if cclass_ok k c then [(cp, cs)] else [])"
| "run (Seq a b) st = concat (map (run b) (run a st))"
| "run (Alt a b) st = run a st @ run b st"
| "run (Rep g lo hi r) (cp, s) =
     (let more = (if hi = Some 0 then []
                  else concat (map (\<lambda>st'. if length (snd st') < length s
                                            then run (Rep g (lo - 1) (dec_max hi) r) st'
                                            else [])
                                   (run r (cp, s))));
          stop = (if lo = 0 then [(cp, s)] else [])
      in if g then more @ stop else stop @ more)"
| "run (Grp n r) (cp, s) =
     map (\<lambda>(cp', t). ((n, take (length s - length t) s) # cp', t)) (run r (cp, s))"
| "run Eos (cp, s) = (if s = [] then [(cp, s)] else [])"
  by pat_completeness auto
termination
  by (relation "measures [\<lambda>(r, st). rx_size r, \<lambda>(r, st). length (snd st)]") auto

text \<open>
  \<open>exec\<close> without the \<open>g\<close> flag: the leftmost start position that has a match, and there
  the first match in priority order. The result is the captures, the matched text and
  the text after the match.
\<close>

fun rx_exec :: "rx \<Rightarrow> string \<Rightarrow> (caps \<times> string \<times> string) option" where
  "rx_exec r [] =
     (case run r ([], []) of [] \<Rightarrow> None | (cp, t) # _ \<Rightarrow> Some (cp, [], t))"
| "rx_exec r (c # cs) =
     (case run r ([], c # cs) of
        [] \<Rightarrow> rx_exec r cs
      | (cp, t) # _ \<Rightarrow> Some (cp, take (length (c # cs) - length t) (c # cs), t))"

text \<open>\<open>pattern.test(text)\<close>.\<close>

definition rx_test :: "rx \<Rightarrow> string \<Rightarrow> bool" where
  "rx_test r s = (rx_exec r s \<noteq> None)"

text \<open>\<open>match[n]\<close> of a match array: \<open>None\<close> is \<open>undefined\<close> (the group did not take part).\<close>

definition group :: "caps \<Rightarrow> nat \<Rightarrow> string option" where
  "group cp n = map_of cp n"

text \<open>\<open>text.match(pattern)\<close> without the \<open>g\<close> flag, as the list \<open>match.slice(1)\<close> of the
  \<open>n\<close> groups of the pattern.\<close>

definition rx_match :: "rx \<Rightarrow> nat \<Rightarrow> string \<Rightarrow> string option list option" where
  "rx_match r n s =
     (case rx_exec r s of
        None \<Rightarrow> None
      | Some (cp, m, t) \<Rightarrow> Some (map (group cp) [1..<Suc n]))"

text \<open>\<open>text.match(pattern)\<close> with the \<open>g\<close> flag: the matched texts from left to right
  (the empty list is JavaScript's \<open>null\<close>); after an empty match the search moves on by
  one character.\<close>

function rx_match_all :: "rx \<Rightarrow> string \<Rightarrow> string list" where
  "rx_match_all r s =
     (case run r ([], s) of
        [] \<Rightarrow> (case s of [] \<Rightarrow> [] | c # cs \<Rightarrow> rx_match_all r cs)
      | (cp, t) # _ \<Rightarrow>
          take (length s - length t) s #
            (if length t < length s then rx_match_all r t
             else (case s of [] \<Rightarrow> [] | c # cs \<Rightarrow> rx_match_all r cs)))"
  by pat_completeness auto
termination
  by (relation "measure (\<lambda>(r, s). length s)") auto

text \<open>Patterns without a capturing group.\<close>

fun no_groups :: "rx \<Rightarrow> bool" where
  "no_groups (Lit w) = True"
| "no_groups (Cls k) = True"
| "no_groups (Seq a b) = (no_groups a \<and> no_groups b)"
| "no_groups (Alt a b) = (no_groups a \<and> no_groups b)"
| "no_groups (Rep g lo hi r) = no_groups r"
| "no_groups (Grp n r) = False"
| "no_groups Eos = True"

text \<open>Abbreviations for writing the patterns.\<close>

fun seqs :: "rx list \<Rightarrow> rx" where
  "seqs [] = Lit []"
| "seqs [r] = r"
| "seqs (r # rs) = Seq r (seqs rs)"

fun alts :: "string list \<Rightarrow> rx" where
  "alts [] = Cls (OneOf [])"
| "alts [w] = Lit w"
| "alts (w # ws) = Alt (Lit w) (alts ws)"

definition star :: "rx \<Rightarrow> rx" where
  "star r = Rep True 0 None r"

definition plus :: "rx \<Rightarrow> rx" where
  "plus r = Rep True 1 None r"

definition opt :: "rx \<Rightarrow> rx" where
  "opt r = Rep True 0 (Some 1) r"

definition digit :: rx where
  "digit = Cls (OneOf [Digit])"

definition space :: rx where
  "space = Cls (OneOf [Space])"

section \<open>providerStatus.js: the availability tracker\<close>

subsection \<open>parseWaitTime\<close>

text \<open>
  \<open>/(\d+)\s*day/i\<close> and its siblings for \<open>hour\<close>, \<open>min\<close> and \<open>sec\<close>. Numbers are exact
  integers here; the JavaScript numbers are IEEE doubles, which are exact below \<open>2^53\<close>.
\<close>

definition unit_pattern :: "string \<Rightarrow> rx" where
  "unit_pattern u = seqs [Grp 1 (plus digit), star space, Lit u]"

definition unit_ms :: "string \<Rightarrow> string \<Rightarrow> int \<Rightarrow> int" where
  "unit_ms u s k =
     (case rx_match (unit_pattern u) 1 s of
        Some [Some ds] \<Rightarrow> parseInt ds * k
      | _ \<Rightarrow> 0)"

definition parseWaitTime :: "string option \<Rightarrow> int option" where
  "parseWaitTime waitTimeStr =
     (case waitTimeStr of
        None \<Rightarrow> None
      | Some s \<Rightarrow>
          if s = [] then None
          else
            let totalMs = 0 + unit_ms ''day'' s (24 * 60 * 60 * 1000)
                            + unit_ms ''hour'' s (60 * 60 * 1000)
                            + unit_ms ''min'' s (60 * 1000)
                            + unit_ms ''sec'' s 1000
            in if totalMs = 0 then None else Some totalMs)"

text \<open>
  The wait-time grammar in the words of the specification, without the matcher: a
  component is a number followed by optional white space and the unit word, in any
  letter case; for each unit the leftmost such place counts, and its number is read in
  base ten. The result of \<open>parseWaitTime\<close> is compared with the sum of the four
  components in milliseconds.
\<close>

fun starts_with_ci :: "string \<Rightarrow> string \<Rightarrow> bool" where
  "starts_with_ci [] s = True"
| "starts_with_ci (p # ps) [] = False"
| "starts_with_ci (p # ps) (c # cs) = (canonicalize p = canonicalize c \<and> starts_with_ci ps cs)"

fun leftmost_number :: "string \<Rightarrow> string \<Rightarrow> string option" where
  "leftmost_number u [] = None"
| "leftmost_number u (c # cs) =
     (if is_digit c \<and> starts_with_ci u (dropWhile is_space (dropWhile is_digit cs))
      then Some (c # takeWhile is_digit cs)
      else leftmost_number u cs)"

fun decimal :: "string \<Rightarrow> int" where
  "decimal [] = 0"
| "decimal (d # ds) = digit_value d * 10 ^ length ds + decimal ds"

definition component :: "string \<Rightarrow> int \<Rightarrow> string \<Rightarrow> int" where
  "component u k s = (case leftmost_number u s of None \<Rightarrow> 0 | Some ds \<Rightarrow> decimal ds * k)"

definition summed_components :: "string \<Rightarrow> int" where
  "summed_components s =
     component ''day'' 86400000 s + component ''hour'' 3600000 s
       + component ''min'' 60000 s + component ''sec'' 1000 s"

text \<open>The four unit words of \<open>parseWaitTime\<close>.\<close>

definition unit_word :: "string \<Rightarrow> bool" where
  "unit_word u = (u \<in> set [''day'', ''hour'', ''min'', ''sec''])"

subsection \<open>Status records and the tracker's state\<close>

text \<open>
  A status record as the tracker writes it. Absent and \<open>null\<close> fields are \<open>None\<close>.
  Timestamps are milliseconds since the epoch: the tracker stores them as ISO strings
  made by \<open>toISOString\<close> and reads them back with \<open>new Date(...).getTime()\<close>, which
  returns the same number. \<open>toISOString\<close> throws a RangeError outside the range of
  \<open>Date\<close>.
\<close>

record provider_status =
  available :: bool
  reason :: string
  statusMessage :: string
  rawWaitTime :: "string option"
  unavailableSince :: "int option"
  estimatedRecovery :: "int option"
  failureCount :: "int option"
  lastChecked :: int

record status_cache =
  providers :: "(string \<times> provider_status) list"
  lastUpdated :: "int option"

datatype status_file = NoFile | Unreadable | Stored status_cache

record status_event =
  event_providerId :: string
  event_status :: provider_status
  event_type :: string

record tracker =
  statusCache :: status_cache
  disk :: status_file
  emitted :: "status_event list"

record tracker_config =
  defaultFallbackPriority :: "string list"
  defaultUsageLimitWait :: int
  defaultRateLimitWait :: int

datatype error = RangeError | WriteFailed | LoadFailed

definition default_config :: tracker_config where
  "default_config =
     \<lparr>defaultFallbackPriority =
        [''claude-code'', ''codex'', ''lmstudio'', ''local-lm-studio'', ''ollama'', ''gemini-cli''],
      defaultUsageLimitWait = 24 * 60 * 60 * 1000,
      defaultRateLimitWait = 5 * 60 * 1000\<rparr>"

definition empty_cache :: status_cache where
  "empty_cache = \<lparr>providers = [], lastUpdated = None\<rparr>"

text \<open>The state of a freshly created service on a data directory without a status file.\<close>

definition new_tracker :: tracker where
  "new_tracker = \<lparr>statusCache = empty_cache, disk = NoFile, emitted = []\<rparr>"

definition MAX_TIME :: int where
  "MAX_TIME = 8640000000000000"

definition valid_time :: "int \<Rightarrow> bool" where
  "valid_time t = (- MAX_TIME \<le> t \<and> t \<le> MAX_TIME)"

definition toISOString :: "int \<Rightarrow> error + int" where
  "toISOString t = (if valid_time t then Inr t else Inl RangeError)"

text \<open>The record \<open>{available: true, reason: 'ok', message: 'Provider available',
  lastChecked}\<close> that \<open>init\<close> and \<open>getStatus\<close> build.\<close>

definition provider_available :: "int \<Rightarrow> provider_status" where
  "provider_available t =
     \<lparr>available = True, reason = ''ok'', statusMessage = ''Provider available'',
      rawWaitTime = None, unavailableSince = None, estimatedRecovery = None,
      failureCount = None, lastChecked = t\<rparr>"

text \<open>\<open>loadStatus\<close>: an unreadable file makes it throw.\<close>

definition loadStatus :: "tracker \<Rightarrow> error + status_cache" where
  "loadStatus st =
     (case disk st of
        NoFile \<Rightarrow> Inr empty_cache
      | Unreadable \<Rightarrow> Inl LoadFailed
      | Stored c \<Rightarrow> Inr c)"

text \<open>
  \<open>saveStatus(status)\<close>. Every caller passes the cache object itself, which the
  function stamps in place before it writes; \<open>written\<close> tells whether \<open>writeFile\<close>
  succeeds, and \<open>t\<close> is the clock at the call.
\<close>

definition saveStatus :: "bool \<Rightarrow> int \<Rightarrow> tracker \<Rightarrow> (error + unit) \<times> tracker" where
  "saveStatus written t st =
     (let status = (statusCache st)\<lparr>lastUpdated := Some t\<rparr>
      in if written then (Inr (), st\<lparr>statusCache := status, disk := Stored status\<rparr>)
         else (Inl WriteFailed, st\<lparr>statusCache := status\<rparr>))"

definition emitStatusChange :: "string \<Rightarrow> provider_status \<Rightarrow> string \<Rightarrow> tracker \<Rightarrow> tracker" where
  "emitStatusChange providerId status ty st =
     st\<lparr>emitted := emitted st @
        [\<lparr>event_providerId = providerId, event_status = status, event_type = ty\<rparr>]\<rparr>"

subsection \<open>init, getStatus, isAvailable\<close>

text \<open>
  The loop of \<open>init\<close> over \<open>Object.entries(statusCache.providers)\<close>: each key is visited
  once and the record under it is replaced when its recovery time has passed. The
  result is the new entries and the flag \<open>changed\<close>. \<open>now\<close> is the \<open>Date.now()\<close> before the
  loop, \<open>t\<close> the clock inside it.
\<close>

fun sweep :: "int \<Rightarrow> int \<Rightarrow> (string \<times> provider_status) list
    \<Rightarrow> (string \<times> provider_status) list \<times> bool" where
  "sweep now t [] = ([], False)"
| "sweep now t ((providerId, status) # es) =
     (let (es', changed) = sweep now t es
      in (case estimatedRecovery status of
            None \<Rightarrow> ((providerId, status) # es', changed)
          | Some recoveryTime \<Rightarrow>
              if now > recoveryTime then ((providerId, provider_available t) # es', True)
              else ((providerId, status) # es', changed)))"

definition init :: "bool \<Rightarrow> int \<Rightarrow> int \<Rightarrow> tracker \<Rightarrow> (error + status_cache) \<times> tracker" where
  "init written now t st =
     (let loaded = (case loadStatus st of Inl e \<Rightarrow> empty_cache | Inr c \<Rightarrow> c);
          (es, changed) = sweep now t (providers loaded);
          st1 = st\<lparr>statusCache := loaded\<lparr>providers := es\<rparr>\<rparr>
      in if changed then
           (case saveStatus written t st1 of
              (Inl e, st2) \<Rightarrow> (Inl e, st2)
            | (Inr u, st2) \<Rightarrow> (Inr (statusCache st2), st2))
         else (Inr (statusCache st1), st1))"

definition getStatus :: "tracker \<Rightarrow> int \<Rightarrow> string \<Rightarrow> provider_status" where
  "getStatus st t providerId =
     (case map_of (providers (statusCache st)) providerId of
        Some status \<Rightarrow> status
      | None \<Rightarrow> provider_available t)"

definition isAvailable :: "tracker \<Rightarrow> int \<Rightarrow> string \<Rightarrow> bool" where
  "isAvailable st t providerId = available (getStatus st t providerId)"

subsection \<open>markUsageLimit, markRateLimited, markAvailable\<close>

record errorInfo =
  infoMessage :: "string option"
  infoWaitTime :: "string option"

text \<open>\<open>(previousStatus?.failureCount || 0) + 1\<close>.\<close>

definition next_failureCount :: "provider_status option \<Rightarrow> int" where
  "next_failureCount previousStatus =
     (case previousStatus of
        None \<Rightarrow> 0
      | Some p \<Rightarrow> (case failureCount p of None \<Rightarrow> 0 | Some n \<Rightarrow> n)) + 1"

definition set_status :: "string \<Rightarrow> provider_status \<Rightarrow> tracker \<Rightarrow> tracker" where
  "set_status providerId status st =
     st\<lparr>statusCache := (statusCache st)
        \<lparr>providers := AList.update providerId status (providers (statusCache st))\<rparr>\<rparr>"

text \<open>The records that the three operations store under the provider's id.\<close>

definition usage_limit_status :: "int \<Rightarrow> int \<Rightarrow> errorInfo \<Rightarrow> provider_status option
    \<Rightarrow> provider_status" where
  "usage_limit_status now recovery info previousStatus =
     \<lparr>available = False, reason = ''usage-limit'',
      statusMessage = or_else (infoMessage info) ''Usage limit exceeded'',
      rawWaitTime = or_null (infoWaitTime info),
      unavailableSince = Some now, estimatedRecovery = Some recovery,
      failureCount = Some (next_failureCount previousStatus),
      lastChecked = now\<rparr>"

definition rate_limit_status :: "int \<Rightarrow> int \<Rightarrow> provider_status option \<Rightarrow> provider_status" where
  "rate_limit_status now recovery previousStatus =
     \<lparr>available = False, reason = ''rate-limit'',
      statusMessage = ''Rate limit exceeded - temporary'',
      rawWaitTime = None,
      unavailableSince = Some now, estimatedRecovery = Some recovery,
      failureCount = Some (next_failureCount previousStatus),
      lastChecked = now\<rparr>"

definition recovered_status :: "int \<Rightarrow> provider_status" where
  "recovered_status t = (provider_available t)\<lparr>failureCount := Some 0\<rparr>"

text \<open>\<open>parseWaitTime(errorInfo.waitTime) || defaultUsageLimitWait\<close>.\<close>

definition usage_limit_wait :: "tracker_config \<Rightarrow> errorInfo \<Rightarrow> int" where
  "usage_limit_wait cfg info =
     (case parseWaitTime (infoWaitTime info) of
        None \<Rightarrow> defaultUsageLimitWait cfg
      | Some ms \<Rightarrow> if ms = 0 then defaultUsageLimitWait cfg else ms)"

text \<open>
  The three operations. \<open>now\<close> is the \<open>new Date()\<close> at the start of the operation and
  \<open>t\<close> the clock when \<open>saveStatus\<close> runs. The cache is updated before \<open>saveStatus\<close> is
  called, so a failed write leaves the new record in memory; the event is emitted only
  after a successful write.
\<close>

definition markUsageLimit :: "tracker_config \<Rightarrow> bool \<Rightarrow> int \<Rightarrow> int \<Rightarrow> string \<Rightarrow> errorInfo
    \<Rightarrow> tracker \<Rightarrow> (error + provider_status) \<times> tracker" where
  "markUsageLimit cfg written now t providerId info st =
     (case toISOString (now + usage_limit_wait cfg info) of
        Inl e \<Rightarrow> (Inl e, st)
      | Inr recovery \<Rightarrow>
          let previousStatus = map_of (providers (statusCache st)) providerId;
              status = usage_limit_status now recovery info previousStatus
          in (case saveStatus written t (set_status providerId status st) of
                (Inl e, st') \<Rightarrow> (Inl e, st')
              | (Inr u, st') \<Rightarrow>
                  (Inr status, emitStatusChange providerId status ''usage-limit'' st')))"

definition markRateLimited :: "tracker_config \<Rightarrow> bool \<Rightarrow> int \<Rightarrow> int \<Rightarrow> string
    \<Rightarrow> tracker \<Rightarrow> (error + provider_status) \<times> tracker" where
  "markRateLimited cfg written now t providerId st =
     (case toISOString (now + defaultRateLimitWait cfg) of
        Inl e \<Rightarrow> (Inl e, st)
      | Inr recovery \<Rightarrow>
          let previousStatus = map_of (providers (statusCache st)) providerId;
              status = rate_limit_status now recovery previousStatus
          in (case saveStatus written t (set_status providerId status st) of
                (Inl e, st') \<Rightarrow> (Inl e, st')
              | (Inr u, st') \<Rightarrow>
                  (Inr status, emitStatusChange providerId status ''rate-limit'' st')))"

definition markAvailable :: "bool \<Rightarrow> int \<Rightarrow> string \<Rightarrow> tracker
    \<Rightarrow> (error + provider_status) \<times> tracker" where
  "markAvailable written t providerId st =
     (let status = recovered_status t
      in case saveStatus written t (set_status providerId status st) of
           (Inl e, st') \<Rightarrow> (Inl e, st')
         | (Inr u, st') \<Rightarrow> (Inr status, emitStatusChange providerId status ''recovered'' st'))"

text \<open>The common tail of the three operations: store the record, save, emit, return.\<close>

definition stored :: "bool \<Rightarrow> int \<Rightarrow> string \<Rightarrow> provider_status \<Rightarrow> string \<Rightarrow> tracker
    \<Rightarrow> (error + provider_status) \<times> tracker" where
  "stored written t k v ty st =
     (case saveStatus written t (set_status k v st) of
        (Inl e, st') \<Rightarrow> (Inl e, st')
      | (Inr u, st') \<Rightarrow> (Inr v, emitStatusChange k v ty st'))"

subsection \<open>The reachable states and the invariant of the status records\<close>

text \<open>
  The states of the tracker that its operations produce, starting from a new service on
  an empty data directory. \<open>getStatus\<close> and \<open>isAvailable\<close> only read. Creating a new
  service on the same data directory starts again from an empty cache and keeps the
  file.
\<close>

inductive reachable :: "tracker \<Rightarrow> bool" where
  start: "reachable new_tracker"
| restart: "reachable st \<Longrightarrow> reachable (st\<lparr>statusCache := empty_cache, emitted := []\<rparr>)"
| init: "reachable st \<Longrightarrow> reachable (snd (init written now t st))"
| usage_limit: "reachable st \<Longrightarrow> reachable (snd (markUsageLimit cfg written now t providerId info st))"
| rate_limited: "reachable st \<Longrightarrow> reachable (snd (markRateLimited cfg written now t providerId st))"
| recovered: "reachable st \<Longrightarrow> reachable (snd (markAvailable written t providerId st))"

text \<open>The invariant of the data model: \<open>available = true\<close> implies reason \<open>ok\<close> and no
  estimated recovery.\<close>

definition status_invariant :: "provider_status \<Rightarrow> bool" where
  "status_invariant s = (if available s then reason s = ''ok'' \<and> estimatedRecovery s = None else True)"

definition cache_invariant :: "status_cache \<Rightarrow> bool" where
  "cache_invariant c = list_all (\<lambda>entry. status_invariant (snd entry)) (providers c)"

definition tracker_invariant :: "tracker \<Rightarrow> bool" where
  "tracker_invariant st =
     (cache_invariant (statusCache st)
      \<and> (case disk st of Stored c \<Rightarrow> cache_invariant c | _ \<Rightarrow> True))"



text \<open>The failure counter of the previous record: 0 when there is no record or the record
  has no counter.\<close>

definition prior_counter :: "tracker \<Rightarrow> string \<Rightarrow> int" where
  "prior_counter st k =
     (case map_of (providers (statusCache st)) k of
        None \<Rightarrow> 0
      | Some p \<Rightarrow> (case failureCount p of None \<Rightarrow> 0 | Some n \<Rightarrow> n))"

text \<open>What \<open>init\<close> starts from: the stored map, or the empty map when there is no
  readable file.\<close>

definition persisted :: "tracker \<Rightarrow> status_cache" where
  "persisted st = (case disk st of Stored c \<Rightarrow> c | _ \<Rightarrow> empty_cache)"

subsection \<open>getFallbackProvider\<close>

text \<open>
  A provider configuration, as far as the tracker reads it, and the object of all
  providers by id as a map. The three tiers of \<open>getFallbackProvider\<close> are its three
  blocks; each returns its candidate or falls through.
\<close>

record provider =
  provider_id :: string
  enabled :: bool
  fallbackProvider :: "string option"

definition task_fallback :: "tracker \<Rightarrow> int \<Rightarrow> string \<Rightarrow> (string \<rightharpoonup> provider)
    \<Rightarrow> string option \<Rightarrow> (provider \<times> string) option" where
  "task_fallback st t primaryProviderId provs taskFallbackId =
     (case taskFallbackId of
        None \<Rightarrow> None
      | Some tid \<Rightarrow>
          if tid \<noteq> [] \<and> tid \<noteq> primaryProviderId then
            (case provs tid of
               None \<Rightarrow> None
             | Some taskFallback \<Rightarrow>
                 if enabled taskFallback \<and> isAvailable st t (provider_id taskFallback)
                 then Some (taskFallback, ''task'')
                 else None)
          else None)"

definition configured_fallback :: "tracker \<Rightarrow> int \<Rightarrow> string \<Rightarrow> (string \<rightharpoonup> provider)
    \<Rightarrow> (provider \<times> string) option" where
  "configured_fallback st t primaryProviderId provs =
     (case provs primaryProviderId of
        None \<Rightarrow> None
      | Some primaryProvider \<Rightarrow>
          (case fallbackProvider primaryProvider of
             None \<Rightarrow> None
           | Some fid \<Rightarrow>
               if fid \<noteq> [] then
                 (case provs fid of
                    None \<Rightarrow> None
                  | Some configuredFallback \<Rightarrow>
                      if enabled configuredFallback
                         \<and> isAvailable st t (provider_id configuredFallback)
                      then Some (configuredFallback, ''provider'')
                      else None)
               else None))"

fun system_fallback :: "tracker \<Rightarrow> int \<Rightarrow> string \<Rightarrow> (string \<rightharpoonup> provider)
    \<Rightarrow> string list \<Rightarrow> (provider \<times> string) option" where
  "system_fallback st t primaryProviderId provs [] = None"
| "system_fallback st t primaryProviderId provs (providerId # rest) =
     (if providerId = primaryProviderId then system_fallback st t primaryProviderId provs rest
      else
        (case provs providerId of
           None \<Rightarrow> system_fallback st t primaryProviderId provs rest
         | Some p \<Rightarrow>
             if enabled p \<and> isAvailable st t providerId then Some (p, ''system'')
             else system_fallback st t primaryProviderId provs rest))"

definition getFallbackProvider :: "tracker_config \<Rightarrow> tracker \<Rightarrow> int \<Rightarrow> string
    \<Rightarrow> (string \<rightharpoonup> provider) \<Rightarrow> string option \<Rightarrow> (provider \<times> string) option" where
  "getFallbackProvider cfg st t primaryProviderId provs taskFallbackId =
     (case task_fallback st t primaryProviderId provs taskFallbackId of
        Some r \<Rightarrow> Some r
      | None \<Rightarrow>
          (case configured_fallback st t primaryProviderId provs of
             Some r \<Rightarrow> Some r
           | None \<Rightarrow>
               system_fallback st t primaryProviderId provs (defaultFallbackPriority cfg)))"

text \<open>
  The resolution order in the words of the specification: the candidates are the
  task-level fallback id (if given and not the primary), the primary's configured
  fallback id, and the priority list without the primary, in this order; the first
  candidate that is known, enabled and available is returned with the source of its
  tier, and nothing when no candidate qualifies.
\<close>

definition candidates :: "tracker_config \<Rightarrow> string \<Rightarrow> (string \<rightharpoonup> provider) \<Rightarrow> string option
    \<Rightarrow> (string \<times> string) list" where
  "candidates cfg primaryProviderId provs taskFallbackId =
     (case taskFallbackId of
        None \<Rightarrow> []
      | Some tid \<Rightarrow> if tid \<noteq> [] \<and> tid \<noteq> primaryProviderId then [(tid, ''task'')] else [])
     @ (case provs primaryProviderId of
          None \<Rightarrow> []
        | Some p \<Rightarrow>
            (case fallbackProvider p of
               None \<Rightarrow> []
             | Some fid \<Rightarrow> if fid \<noteq> [] then [(fid, ''provider'')] else []))
     @ map (\<lambda>k. (k, ''system''))
         (filter (\<lambda>k. k \<noteq> primaryProviderId) (defaultFallbackPriority cfg))"

definition qualifies :: "tracker \<Rightarrow> int \<Rightarrow> (string \<rightharpoonup> provider) \<Rightarrow> string \<Rightarrow> bool" where
  "qualifies st t provs k =
     (case provs k of None \<Rightarrow> False | Some p \<Rightarrow> enabled p \<and> isAvailable st t k)"

fun first_qualifying :: "tracker \<Rightarrow> int \<Rightarrow> (string \<rightharpoonup> provider) \<Rightarrow> (string \<times> string) list
    \<Rightarrow> (provider \<times> string) option" where
  "first_qualifying st t provs [] = None"
| "first_qualifying st t provs ((k, src) # rest) =
     (case provs k of
        None \<Rightarrow> first_qualifying st t provs rest
      | Some p \<Rightarrow>
          if enabled p \<and> isAvailable st t k then Some (p, src)
          else first_qualifying st t provs rest)"

definition resolve_fallback :: "tracker_config \<Rightarrow> tracker \<Rightarrow> int \<Rightarrow> string
    \<Rightarrow> (string \<rightharpoonup> provider) \<Rightarrow> string option \<Rightarrow> (provider \<times> string) option" where
  "resolve_fallback cfg st t primaryProviderId provs taskFallbackId =
     first_qualifying st t provs (candidates cfg primaryProviderId provs taskFallbackId)"

text \<open>The object of all providers is keyed by the providers' ids.\<close>

definition keyed_by_id :: "(string \<rightharpoonup> provider) \<Rightarrow> bool" where
  "keyed_by_id provs = (\<forall>k p. provs k = Some p \<longrightarrow> provider_id p = k)"

section \<open>errorDetection.js: the error classifier\<close>

definition RATE_LIMIT :: string where "RATE_LIMIT = ''rate-limit''"
definition USAGE_LIMIT :: string where "USAGE_LIMIT = ''usage-limit''"
definition AUTH_ERROR :: string where "AUTH_ERROR = ''auth-error''"
definition MODEL_NOT_FOUND :: string where "MODEL_NOT_FOUND = ''model-not-found''"
definition NETWORK_ERROR :: string where "NETWORK_ERROR = ''network-error''"
definition TIMEOUT :: string where "TIMEOUT = ''timeout''"
definition QUOTA_EXCEEDED :: string where "QUOTA_EXCEEDED = ''quota-exceeded''"
definition UNKNOWN :: string where "UNKNOWN = ''unknown''"

record error_pattern =
  pattern :: rx
  rule_category :: string
  rule_requiresFallback :: bool
  rule_actionable :: bool
  rule_suggestedFix :: string
  rule_extractWaitTime :: bool

definition dot :: rx where
  "dot = Cls Dot"

definition ERROR_PATTERNS :: "error_pattern list" where
  "ERROR_PATTERNS =
    [\<lparr>pattern = alts [''billing'', ''payment'', ''credit'', ''insufficient funds''],
      rule_category = QUOTA_EXCEEDED, rule_requiresFallback = True, rule_actionable = True,
      rule_suggestedFix = ''Check billing status and add credits to the provider account'',
      rule_extractWaitTime = False\<rparr>,
     \<lparr>pattern = Alt (Lit ''API Error: 429'')
                (Alt (seqs [Lit ''rate'', opt dot, Lit ''limit'']) (Lit ''too many requests'')),
      rule_category = RATE_LIMIT, rule_requiresFallback = False, rule_actionable = False,
      rule_suggestedFix = ''Wait and retry - temporary rate limiting'',
      rule_extractWaitTime = False\<rparr>,
     \<lparr>pattern = alts [''hit your usage limit'', ''You'' @ [CHR 0x27] @ ''ve hit your limit'',
                       ''usage limit'', ''Upgrade to Pro''],
      rule_category = USAGE_LIMIT, rule_requiresFallback = True, rule_actionable = True,
      rule_suggestedFix =
        ''Provider usage limit reached. Using fallback provider or wait for limit reset.'',
      rule_extractWaitTime = True\<rparr>,
     \<lparr>pattern = Alt (Lit ''unauthorized'')
                (Alt (seqs [Lit ''invalid'', opt dot, Lit ''api'', opt dot, Lit ''key''])
                   (alts [''authentication'', ''forbidden'', ''401'', ''403''])),
      rule_category = AUTH_ERROR, rule_requiresFallback = True, rule_actionable = True,
      rule_suggestedFix = ''Check API key configuration for this provider'',
      rule_extractWaitTime = False\<rparr>,
     \<lparr>pattern = Alt (seqs [Lit ''model'', star dot,
                           Grp 1 (alts [''not found'', ''does not exist'', ''unavailable''])])
                (Lit ''invalid model''),
      rule_category = MODEL_NOT_FOUND, rule_requiresFallback = True, rule_actionable = True,
      rule_suggestedFix = ''Check model name and availability in provider settings'',
      rule_extractWaitTime = False\<rparr>,
     \<lparr>pattern = alts [''ECONNREFUSED'', ''ENOTFOUND'', ''network error'',
                       ''connection refused'', ''timeout'', ''ETIMEDOUT''],
      rule_category = NETWORK_ERROR, rule_requiresFallback = False, rule_actionable = False,
      rule_suggestedFix = ''Check network connectivity and provider endpoint URL'',
      rule_extractWaitTime = False\<rparr>,
     \<lparr>pattern = alts [''timed out'', ''timeout exceeded'', ''SIGTERM''],
      rule_category = TIMEOUT, rule_requiresFallback = False, rule_actionable = False,
      rule_suggestedFix = ''Consider increasing timeout or reducing prompt complexity'',
      rule_extractWaitTime = False\<rparr>]"

subsection \<open>extractWaitTime\<close>

definition time_unit :: rx where
  "time_unit = alts [''day'', ''hour'', ''minute'', ''second'']"

definition duration_list :: rx where
  "duration_list =
     plus (seqs [plus digit, star space, time_unit, opt (Lit ''s''), star space])"

definition comma_space :: rx where
  "comma_space = star (Cls (OneOf [Ch CHR '','', Space]))"

text \<open>The patterns with the number of their capturing groups.\<close>

definition WAIT_TIME_PATTERNS :: "(rx \<times> nat) list" where
  "WAIT_TIME_PATTERNS =
    [(seqs [Lit ''reset'', opt (Lit ''s''), plus space,
            Grp 1 (Seq (Rep True 1 (Some 2) digit) (opt (alts [''am'', ''pm'']))),
            star space, Lit ''('', Grp 2 (plus (Cls (NoneOf [Ch CHR '')'']))), Lit '')''], 2),
     (seqs [Lit ''try again in'', plus space, Grp 1 duration_list], 1),
     (seqs [Lit ''wait'', plus space, Grp 1 duration_list], 1),
     (seqs [Lit ''in'', plus space, Grp 1 (plus digit), star space, Grp 2 time_unit,
            opt (Lit ''s'')], 2),
     (seqs [opt (Grp 1 (seqs [plus digit, star space, Lit ''day'', opt (Lit ''s'')])),
            comma_space,
            opt (Grp 2 (seqs [plus digit, star space, Lit ''hour'', opt (Lit ''s'')])),
            comma_space,
            opt (Grp 3 (seqs [plus digit, star space, Lit ''min'', opt (Lit ''ute''),
                              opt (Lit ''s'')]))], 3)]"

definition general_time_pattern :: rx where
  "general_time_pattern =
     seqs [Grp 1 (plus digit), star space, Grp 2 (alts [''day'', ''hour'', ''min'', ''sec'']),
           opt (Lit ''ute''), opt (Lit ''s'')]"

text \<open>\<open>match.slice(1).filter(Boolean).join(' ').trim()\<close>.\<close>

definition joined_groups :: "string option list \<Rightarrow> string" where
  "joined_groups gs = trim (join_space (map the (filter truthy gs)))"

fun first_wait_time :: "(rx \<times> nat) list \<Rightarrow> string \<Rightarrow> string option" where
  "first_wait_time [] text = None"
| "first_wait_time ((p, n) # ps) text =
     (case rx_match p n text of
        None \<Rightarrow> first_wait_time ps text
      | Some gs \<Rightarrow>
          (let timeStr = joined_groups gs
           in if timeStr \<noteq> [] \<and> timeStr \<noteq> '' '' then Some timeStr
              else first_wait_time ps text))"

definition extractWaitTime :: "string option \<Rightarrow> string option" where
  "extractWaitTime text =
     (case text of
        None \<Rightarrow> None
      | Some s \<Rightarrow>
          if s = [] then None
          else
            (case first_wait_time WAIT_TIME_PATTERNS s of
               Some timeStr \<Rightarrow> Some timeStr
             | None \<Rightarrow>
                 (case rx_match_all general_time_pattern s of
                    [] \<Rightarrow> None
                  | m # ms \<Rightarrow> Some (join_space (m # ms)))))"

subsection \<open>extractErrorMessage\<close>

definition quote :: string where
  "quote = [CHR 0x22]"

definition line_end :: rx where
  "line_end = Alt (Lit [CHR 0x0A]) Eos"

definition quoted_value :: rx where
  "quoted_value = seqs [star space, Lit quote, Grp 1 (plus (Cls (NoneOf [Ch CHR 0x22]))), Lit quote]"

definition message_patterns :: "rx list" where
  "message_patterns =
    [seqs [Lit ''Error:'', star space, Grp 1 (Rep False 1 None dot), line_end],
     Seq (Lit (''error'' @ quote @ '':'')) quoted_value,
     Seq (Lit (''message'' @ quote @ '':'')) quoted_value,
     seqs [Lit ''failed:'', star space, Grp 1 (Rep False 1 None dot), line_end]]"

fun first_message :: "rx list \<Rightarrow> string \<Rightarrow> string option" where
  "first_message [] text = None"
| "first_message (p # ps) text =
     (case rx_match p 1 text of
        Some [Some m] \<Rightarrow> Some (trim m)
      | _ \<Rightarrow> first_message ps text)"

definition extractErrorMessage :: "string \<Rightarrow> string" where
  "extractErrorMessage text =
     (if text = [] then []
      else
        (case first_message message_patterns text of
           Some m \<Rightarrow> m
         | None \<Rightarrow>
             (let lines = filter (\<lambda>line. trim line \<noteq> []) (split_lines text)
              in case lines of
                   [] \<Rightarrow> take 200 text
                 | l # ls \<Rightarrow> if take 200 l = [] then take 200 text else take 200 l)))"

subsection \<open>analyzeError and analyzeHttpError\<close>

record classification =
  hasError :: bool
  category :: "string option"
  message :: "string option"
  waitTime :: "string option"
  requiresFallback :: bool
  actionable :: bool
  suggestedFix :: "string option"

definition no_error :: classification where
  "no_error =
     \<lparr>hasError = False, category = None, message = None, waitTime = None,
      requiresFallback = False, actionable = False, suggestedFix = None\<rparr>"

text \<open>The loop of \<open>analyzeError\<close> over the rules: the first rule whose pattern matches.\<close>

fun first_rule :: "error_pattern list \<Rightarrow> string \<Rightarrow> error_pattern option" where
  "first_rule [] text = None"
| "first_rule (errorPattern # rest) text =
     (if rx_test (pattern errorPattern) text then Some errorPattern else first_rule rest text)"

text \<open>The \<open>result\<close> that the loop returns for the rule that matched.\<close>

definition rule_result :: "error_pattern \<Rightarrow> string \<Rightarrow> classification" where
  "rule_result errorPattern text =
     \<lparr>hasError = True, category = Some (rule_category errorPattern),
      message = Some (extractErrorMessage text),
      waitTime = (if rule_extractWaitTime errorPattern then extractWaitTime (Some text) else None),
      requiresFallback = rule_requiresFallback errorPattern,
      actionable = rule_actionable errorPattern,
      suggestedFix = Some (rule_suggestedFix errorPattern)\<rparr>"

definition analyzeError :: "string option \<Rightarrow> int option \<Rightarrow> classification" where
  "analyzeError errorText exitCode =
     (if \<not> truthy errorText \<and> exitCode = Some 0 then no_error
      else
        let text = or_else errorText []
        in (case first_rule ERROR_PATTERNS text of
              Some errorPattern \<Rightarrow> rule_result errorPattern text
            | None \<Rightarrow>
                (case exitCode of
                   None \<Rightarrow> no_error
                 | Some code \<Rightarrow>
                     if code \<noteq> 0 then
                       \<lparr>hasError = True, category = Some UNKNOWN,
                        message = Some (or_else (Some (extractErrorMessage text))
                                          (''Process exited with code '' @ show_int code)),
                        waitTime = None, requiresFallback = False, actionable = False,
                        suggestedFix = None\<rparr>
                     else no_error)))"

definition isRateLimitStatus :: "int \<Rightarrow> bool" where
  "isRateLimitStatus statusCode = (statusCode = 429)"

definition isAuthErrorStatus :: "int \<Rightarrow> bool" where
  "isAuthErrorStatus statusCode = (statusCode = 401 \<or> statusCode = 403)"

record http_response =
  status :: int
  statusText :: string
  body :: string

definition analyzeHttpError :: "http_response \<Rightarrow> classification" where
  "analyzeHttpError response =
     (if status response \<ge> 200 \<and> status response < 300 then no_error
      else if isRateLimitStatus (status response) then
        \<lparr>hasError = True, category = Some RATE_LIMIT,
         message = Some (''Rate limit exceeded ('' @ show_int (status response) @ '')''),
         waitTime = extractWaitTime (Some (body response)),
         requiresFallback = False, actionable = False,
         suggestedFix = Some ''Wait and retry - temporary rate limiting''\<rparr>
      else if isAuthErrorStatus (status response) then
        \<lparr>hasError = True, category = Some AUTH_ERROR,
         message = Some (''Authentication failed ('' @ show_int (status response) @ '')''),
         waitTime = None, requiresFallback = True, actionable = True,
         suggestedFix = Some ''Check API key configuration for this provider''\<rparr>
      else if body response \<noteq> [] then analyzeError (Some (body response)) None
      else
        \<lparr>hasError = True, category = Some UNKNOWN,
         message = Some (or_else (Some (statusText response))
                           (''HTTP '' @ show_int (status response))),
         waitTime = None, requiresFallback = False, actionable = False,
         suggestedFix = None\<rparr>)"

section \<open>runner.js: the API run\<close>

text \<open>
  \<open>handleProviderError\<close>: the status service is optional, and a failure of its
  operations is caught and logged. The external hook \<open>onProviderError\<close> is not modelled.
\<close>

definition handleProviderError :: "tracker_config \<Rightarrow> bool \<Rightarrow> int \<Rightarrow> int \<Rightarrow> string
    \<Rightarrow> classification \<Rightarrow> tracker option \<Rightarrow> tracker option" where
  "handleProviderError cfg written now t providerId errorAnalysis providerStatusService =
     (case providerStatusService of
        None \<Rightarrow> None
      | Some st \<Rightarrow>
          if category errorAnalysis = Some USAGE_LIMIT \<and> requiresFallback errorAnalysis then
            Some (snd (markUsageLimit cfg written now t providerId
                         \<lparr>infoMessage = message errorAnalysis,
                          infoWaitTime = waitTime errorAnalysis\<rparr> st))
          else if category errorAnalysis = Some RATE_LIMIT then
            Some (snd (markRateLimited cfg written now t providerId st))
          else Some st)"

text \<open>
  The terminal fields of the run's \<open>metadata.json\<close>. \<open>usedReasoningAsFallback\<close> receives
  the value of \<open>!output.trim() && reasoning.trim()\<close>, which is a boolean or a string.
\<close>

datatype js_value = JBool bool | JString string

record metadata =
  run_id :: string
  endTime :: "int option"
  duration :: "int option"
  exitCode :: "int option"
  success :: "bool option"
  error :: "string option"
  errorCategory :: "string option"
  errorAnalysis :: "classification option"
  outputSize :: nat
  hadReasoning :: "bool option"
  usedReasoningAsFallback :: "js_value option"

text \<open>What \<open>createRun\<close> writes for the terminal fields.\<close>

definition initial_metadata :: "string \<Rightarrow> metadata" where
  "initial_metadata runId =
     \<lparr>run_id = runId, endTime = None, duration = None, exitCode = None, success = None,
      error = None, errorCategory = None, errorAnalysis = None, outputSize = 0,
      hadReasoning = None, usedReasoningAsFallback = None\<rparr>"

text \<open>\<open>Buffer.byteLength\<close>: the UTF-8 length; a code unit from 128 to 255 takes two bytes.\<close>

definition byteLength :: "string \<Rightarrow> nat" where
  "byteLength s = sum_list (map (\<lambda>c. if (of_char c :: nat) < 128 then 1 else 2) s)"

text \<open>
  The answer of \<open>fetch\<close>: it rejects with a message, or responds. A response has its
  status line, the text of its body (\<open>None\<close> when \<open>response.text()\<close> rejects) and, read
  as a stream, a list of reads, each a chunk of text or a failure of the transport with
  its message; the end of the list is \<open>done\<close>.
\<close>

datatype read_result = Chunk string | ReadFailed string

record reply =
  reply_status :: int
  reply_statusText :: string
  reply_text :: "string option"
  reply_reads :: "read_result list"

datatype fetch_result = Rejected "string option" | Responded reply

text \<open>
  The \<open>delta\<close> of a parsed event, as far as the run reads it. \<open>JSON.parse\<close> followed by
  \<open>parsed?.choices?.[0]?.delta\<close> is a parameter \<open>decode\<close> of the run: it gives the
  message of the SyntaxError, or the delta (with both fields absent when there is none).
\<close>

record delta =
  delta_content :: "string option"
  delta_reasoning :: "string option"

type_synonym decoder = "string \<Rightarrow> string + delta"

definition startsWith :: "string \<Rightarrow> string \<Rightarrow> bool" where
  "startsWith line p = (take (length p) line = p)"

text \<open>\<open>if (delta?.content) output += delta.content\<close>, and the same for the reasoning.\<close>

fun append_token :: "string \<Rightarrow> string option \<Rightarrow> string" where
  "append_token acc None = acc"
| "append_token acc (Some token) = (if token = [] then acc else acc @ token)"

text \<open>
  The inner loop over the \<open>data: \<close> lines of one chunk. The state is \<open>(output,
  reasoning)\<close>; an error carries its message and the output accumulated so far, which
  the \<open>catch\<close> handler still sees. The second sentinel of the source, a check mark, is a
  code unit above 255 and so equals no text considered here.
\<close>

fun process_lines :: "decoder \<Rightarrow> string list \<Rightarrow> string \<times> string
    \<Rightarrow> (string \<times> string) + (string \<times> string)" where
  "process_lines decode [] acc = Inr acc"
| "process_lines decode (line # rest) (output, reasoning) =
     (let data = drop 6 line
      in if data = ''[DONE]'' then process_lines decode rest (output, reasoning)
         else
           (case decode data of
              Inl msg \<Rightarrow> Inl (msg, output)
            | Inr d \<Rightarrow>
                process_lines decode rest
                  (append_token output (delta_content d),
                   append_token reasoning (delta_reasoning d))))"

text \<open>The \<open>while (true)\<close> loop of \<open>processStream\<close> over the reads.\<close>

fun read_loop :: "decoder \<Rightarrow> read_result list \<Rightarrow> string \<times> string
    \<Rightarrow> (string \<times> string) + (string \<times> string)" where
  "read_loop decode [] acc = Inr acc"
| "read_loop decode (ReadFailed msg # rest) (output, reasoning) = Inl (msg, output)"
| "read_loop decode (Chunk chunk # rest) (output, reasoning) =
     (let lines = filter (\<lambda>line. startsWith line ''data: '') (split_lines chunk)
      in (case process_lines decode lines (output, reasoning) of
            Inl e \<Rightarrow> Inl e
          | Inr acc \<Rightarrow> read_loop decode rest acc))"

text \<open>
  \<open>executeApiRun\<close>, from the answer of \<open>fetch\<close> to the terminal write. The result is the
  final \<open>metadata.json\<close>, the final \<open>output.txt\<close> and the status service. \<open>metadata0\<close>
  and \<open>output0\<close> are the two files as \<open>createRun\<close> left them, \<open>startTime\<close> and \<open>now\<close>
  the clock at the start and at the end of the run. The callbacks and hooks are not
  modelled, and the run directory is taken to be writable.
\<close>

record api_run =
  run_metadata :: metadata
  run_output :: string
  run_service :: "tracker option"

definition is_ok :: "fetch_result \<Rightarrow> bool" where
  "is_ok response =
     (case response of
        Rejected e \<Rightarrow> False
      | Responded r \<Rightarrow> 200 \<le> reply_status r \<and> reply_status r \<le> 299)"

definition provider_level :: "classification \<Rightarrow> bool" where
  "provider_level analysis =
     (hasError analysis
      \<and> (category analysis = Some RATE_LIMIT \<or> category analysis = Some USAGE_LIMIT))"

definition failed_response :: "tracker_config \<Rightarrow> bool \<Rightarrow> string \<Rightarrow> fetch_result \<Rightarrow> int \<Rightarrow> int
    \<Rightarrow> int \<Rightarrow> metadata \<Rightarrow> string \<Rightarrow> tracker option \<Rightarrow> api_run" where
  "failed_response cfg written providerId response startTime now t metadata0 output0 service =
     (let responseStatus = (case response of Rejected e \<Rightarrow> 0 | Responded r \<Rightarrow> reply_status r);
          responseBody =
            (case response of
               Rejected e \<Rightarrow> or_else e []
             | Responded r \<Rightarrow> (case reply_text r of None \<Rightarrow> [] | Some b \<Rightarrow> b));
          analysis = analyzeHttpError
            \<lparr>status = responseStatus,
             statusText = (case response of Rejected e \<Rightarrow> [] | Responded r \<Rightarrow> reply_statusText r),
             body = responseBody\<rparr>;
          metadata = metadata0
            \<lparr>endTime := Some now, duration := Some (now - startTime), success := Some False,
             error := Some (or_else (message analysis)
                              (''API error: '' @ show_int responseStatus)),
             errorCategory := category analysis,
             errorAnalysis := Some analysis\<rparr>
      in \<lparr>run_metadata = metadata, run_output = output0,
          run_service = (if provider_level analysis
                         then handleProviderError cfg written now t providerId analysis service
                         else service)\<rparr>)"

definition stream_completed :: "int \<Rightarrow> int \<Rightarrow> metadata \<Rightarrow> tracker option
    \<Rightarrow> string \<times> string \<Rightarrow> api_run" where
  "stream_completed startTime now metadata0 service acc =
     (let reasoning = snd acc;
          output = (if trim (fst acc) = [] \<and> trim reasoning \<noteq> [] then reasoning else fst acc)
      in \<lparr>run_metadata = metadata0
            \<lparr>endTime := Some now, duration := Some (now - startTime), exitCode := Some 0,
             success := Some True, outputSize := byteLength output,
             hadReasoning := Some (length reasoning > 0),
             usedReasoningAsFallback :=
               Some (if trim output = [] then JString (trim reasoning) else JBool False)\<rparr>,
          run_output = output, run_service = service\<rparr>)"

definition stream_failed :: "tracker_config \<Rightarrow> bool \<Rightarrow> string \<Rightarrow> int \<Rightarrow> int \<Rightarrow> int
    \<Rightarrow> metadata \<Rightarrow> string \<Rightarrow> tracker option \<Rightarrow> string \<times> string \<Rightarrow> api_run" where
  "stream_failed cfg written providerId startTime now t metadata0 output0 service err =
     (let output = snd err;
          analysis = analyzeError (Some (fst err)) None
      in \<lparr>run_metadata = metadata0
            \<lparr>endTime := Some now, duration := Some (now - startTime), success := Some False,
             error := Some (or_else (message analysis) (fst err)),
             errorCategory := category analysis,
             errorAnalysis := Some analysis,
             outputSize := byteLength output\<rparr>,
          run_output = (if output \<noteq> [] then output else output0),
          run_service = (if provider_level analysis
                         then handleProviderError cfg written now t providerId analysis service
                         else service)\<rparr>)"

definition executeApiRun :: "tracker_config \<Rightarrow> bool \<Rightarrow> decoder \<Rightarrow> string \<Rightarrow> fetch_result
    \<Rightarrow> int \<Rightarrow> int \<Rightarrow> int \<Rightarrow> metadata \<Rightarrow> string \<Rightarrow> tracker option \<Rightarrow> api_run" where
  "executeApiRun cfg written decode providerId response startTime now t metadata0 output0 service =
     (if \<not> is_ok response then
        failed_response cfg written providerId response startTime now t metadata0 output0 service
      else
        (case response of
           Rejected e \<Rightarrow>
             failed_response cfg written providerId response startTime now t metadata0 output0
               service
         | Responded r \<Rightarrow>
             (case read_loop decode (reply_reads r) ([], []) of
                Inr acc \<Rightarrow> stream_completed startTime now metadata0 service acc
              | Inl err \<Rightarrow>
                  stream_failed cfg written providerId startTime now t metadata0 output0 service
                    err)))"

section \<open>Sample inputs\<close>

text \<open>A usage-limit report whose wait time has a zero component only.\<close>

definition zero_minutes :: errorInfo where
  "zero_minutes = \<lparr>infoMessage = Some ''Usage limit exceeded'', infoWaitTime = Some ''0 minutes''\<rparr>"

text \<open>The tracker after \<open>codex\<close> was reported with that wait time and then recovered.\<close>

definition limited_tracker :: tracker where
  "limited_tracker =
     snd (markUsageLimit default_config True 1000 1001 ''codex'' zero_minutes new_tracker)"

definition recovered_tracker :: tracker where
  "recovered_tracker = snd (markAvailable True 2000 ''codex'' limited_tracker)"


definition second_failure :: errorInfo where
  "second_failure = \<lparr>infoMessage = Some ''Second failure'', infoWaitTime = None\<rparr>"

text \<open>The configuration and the providers of the tracker's test suite.\<close>

definition test_config :: tracker_config where
  "test_config =
     \<lparr>defaultFallbackPriority = [''fallback-provider-1'', ''fallback-provider-2''],
      defaultUsageLimitWait = 1000, defaultRateLimitWait = 500\<rparr>"

definition mock_provider :: "string \<Rightarrow> bool \<Rightarrow> string option \<Rightarrow> provider" where
  "mock_provider i e f = \<lparr>provider_id = i, enabled = e, fallbackProvider = f\<rparr>"

definition mockProviders :: "string \<rightharpoonup> provider" where
  "mockProviders = map_of
     [(''primary-provider'', mock_provider ''primary-provider'' True (Some ''configured-fallback'')),
      (''configured-fallback'', mock_provider ''configured-fallback'' True None),
      (''fallback-provider-1'', mock_provider ''fallback-provider-1'' True None),
      (''fallback-provider-2'', mock_provider ''fallback-provider-2'' True None),
      (''disabled-provider'', mock_provider ''disabled-provider'' False None)]"

text \<open>A successful response whose body reads like an error.\<close>

definition ok_response :: http_response where
  "ok_response = \<lparr>status = 200, statusText = ''OK'', body = ''Rate limit exceeded''\<rparr>"

text \<open>A failed response whose body matches no rule, as the classifier and as the runner
  see it.\<close>

definition server_error :: http_response where
  "server_error =
     \<lparr>status = 500, statusText = ''Internal Server Error'', body = ''Internal Server Error''\<rparr>"

definition server_error_reply :: reply where
  "server_error_reply =
     \<lparr>reply_status = 500, reply_statusText = ''Internal Server Error'',
      reply_text = Some ''Internal Server Error'', reply_reads = []\<rparr>"

text \<open>
  A stream of one event with a reasoning token and no content, then the end marker; and
  a decoder that parses this event and rejects every other text.
\<close>

definition reasoning_event :: string where
  "reasoning_event =
     ''{'' @ quote @ ''choices'' @ quote @ '':[{'' @ quote @ ''delta'' @ quote @ '':{''
       @ quote @ ''reasoning'' @ quote @ '':'' @ quote @ ''thinking'' @ quote @ ''}}]}''"

definition sample_decode :: decoder where
  "sample_decode data =
     (if data = reasoning_event then Inr \<lparr>delta_content = None, delta_reasoning = Some ''thinking''\<rparr>
      else Inl ''Unexpected token'')"

definition reasoning_only_reply :: reply where
  "reasoning_only_reply =
     \<lparr>reply_status = 200, reply_statusText = ''OK'', reply_text = None,
      reply_reads = [Chunk (''data: '' @ reasoning_event @ [CHR 0x0A, CHR 0x0A]),
                     Chunk (''data: [DONE]'' @ [CHR 0x0A, CHR 0x0A])]\<rparr>"

section \<open>Properties of the matcher\<close>

text \<open>
  A quantified character class consumes a prefix of characters of the class and leaves
  the captures alone; a pattern without groups leaves the captures alone.
\<close>

lemma run_rep_cls:
  "(cp', t) \<in> set (run (Rep g lo hi (Cls k)) (cp, s)) \<Longrightarrow>
     cp' = cp \<and> (\<exists>n. lo \<le> n \<and> n \<le> length s \<and> t = drop n s \<and> list_all (cclass_ok k) (take n s))"
proof (induction s arbitrary: lo hi)
  case Nil
  then show ?case by (auto simp: Let_def split: if_splits)
next
  case (Cons c cs)
  show ?case
  proof (cases "(cp', t) = (cp, c # cs) \<and> lo = 0")
    case True
    then show ?thesis by auto
  next
    case False
    with Cons.prems have ok: "cclass_ok k c" and hi: "hi \<noteq> Some 0"
      and mem: "(cp', t) \<in> set (run (Rep g (lo - 1) (dec_max hi) (Cls k)) (cp, cs))"
      by (auto simp: Let_def split: if_splits)
    from Cons.IH[OF mem] obtain n where n: "cp' = cp" "lo - 1 \<le> n" "n \<le> length cs"
      "t = drop n cs" "list_all (cclass_ok k) (take n cs)" by blast
    then show ?thesis using ok
      by (intro conjI exI[of _ "Suc n"]) auto
  qed
qed

lemma run_no_groups:
  "no_groups r \<Longrightarrow> st' \<in> set (run r st) \<Longrightarrow> fst st' = fst st"
proof (induction r st arbitrary: st' rule: run.induct)
  case (1 w cp s)
  then show ?case by (auto split: option.splits)
next
  case (2 k cp s)
  then show ?case by (auto split: list.splits if_splits)
next
  case (3 a b st)
  from "3.prems" obtain st1 where st1: "st1 \<in> set (run a st)" "st' \<in> set (run b st1)"
    by auto
  from "3.prems" have "no_groups a" "no_groups b" by simp_all
  with st1 "3.IH"(1)[of st1] "3.IH"(2)[of st1 st'] show ?case by simp
next
  case (4 a b st)
  from "4.prems" have "no_groups a" "no_groups b" by simp_all
  moreover from "4.prems" have "st' \<in> set (run a st) \<or> st' \<in> set (run b st)" by simp
  ultimately show ?case using "4.IH" by blast
next
  case (5 g lo hi r cp s)
  from "5.prems" have ng: "no_groups r" by simp
  from "5.prems"(2) consider "st' = (cp, s)"
    | st1 where "hi \<noteq> Some 0" "st1 \<in> set (run r (cp, s))" "length (snd st1) < length s"
        "st' \<in> set (run (Rep g (lo - 1) (dec_max hi) r) st1)"
    by (auto simp: Let_def split: if_splits)
  then show ?case
  proof cases
    case 1
    then show ?thesis by simp
  next
    case 2
    have "fst st1 = cp" using "5.IH"(1)[OF 2(1) ng 2(2)] by simp
    moreover have "fst st' = fst st1"
      using "5.IH"(2)[OF 2(1) 2(2) 2(3) _ 2(4)] ng by simp
    ultimately show ?thesis by simp
  qed
next
  case (6 n r cp s)
  then show ?case by simp
next
  case (7 cp s)
  then show ?case by (auto split: if_splits)
qed

lemma run_unit_pattern:
  assumes "(cp', t) \<in> set (run (unit_pattern u) ([], s))"
  shows "\<exists>ds. cp' = [(1, ds)] \<and> ds \<noteq> [] \<and> list_all is_digit ds"
proof -
  have "unit_pattern u = Seq (Grp 1 (plus digit)) (Seq (star space) (Lit u))"
    by (simp add: unit_pattern_def)
  with assms have "(cp', t) \<in> set (concat (map (run (Seq (star space) (Lit u)))
      (run (Grp 1 (plus digit)) ([], s))))"
    by (simp only: run.simps(3))
  then obtain st1 where st1: "st1 \<in> set (run (Grp 1 (plus digit)) ([], s))"
    and st': "(cp', t) \<in> set (run (Seq (star space) (Lit u)) st1)"
    unfolding set_concat set_map by blast
  have "no_groups (Seq (star space) (Lit u))" by (simp add: star_def space_def)
  from run_no_groups[OF this st'] have cp': "cp' = fst st1" by simp
  from st1 have "st1 \<in> (\<lambda>(cp', t). ((1, take (length s - length t) s) # cp', t)) `
      set (run (plus digit) ([], s))"
    by (simp only: run.simps(6) set_map)
  then obtain cp1 t1 where m0: "(cp1, t1) \<in> set (run (plus digit) ([], s))"
    and st1_eq: "st1 = ((1, take (length s - length t1) s) # cp1, t1)"
    by auto
  from m0 have m: "(cp1, t1) \<in> set (run (Rep True 1 None (Cls (OneOf [Digit]))) ([], s))"
    by (simp only: plus_def digit_def)
  from run_rep_cls[OF m] obtain n where n: "cp1 = []" "1 \<le> n" "n \<le> length s" "t1 = drop n s"
    "list_all (cclass_ok (OneOf [Digit])) (take n s)" by blast
  have "take (length s - length t1) s = take n s" using n by simp
  moreover have "take n s \<noteq> []" using n by auto
  moreover have "list_all is_digit (take n s)" using n(5) by (simp add: list_all_iff)
  ultimately show ?thesis using cp' st1_eq n(1) by simp
qed

lemma rx_exec_unit_pattern:
  "rx_exec (unit_pattern u) s = Some (cp, m, t) \<Longrightarrow>
     \<exists>ds. cp = [(1, ds)] \<and> ds \<noteq> [] \<and> list_all is_digit ds"
proof (induction s)
  case Nil
  then obtain t' rest where "run (unit_pattern u) ([], []) = (cp, t') # rest"
    by (auto split: list.splits)
  then have "(cp, t') \<in> set (run (unit_pattern u) ([], []))" by simp
  then show ?case by (rule run_unit_pattern)
next
  case (Cons c cs)
  show ?case
  proof (cases "run (unit_pattern u) ([], c # cs)")
    case Nil
    with Cons show ?thesis by simp
  next
    case (Cons st rest)
    with Cons.prems obtain t' where "st = (cp, t')" by (cases st) auto
    with Cons have "(cp, t') \<in> set (run (unit_pattern u) ([], c # cs))" by simp
    then show ?thesis by (rule run_unit_pattern)
  qed
qed

lemma digit_value_nonneg: "is_digit c \<Longrightarrow> 0 \<le> digit_value c"
  by (auto simp: is_digit_def digit_value_def)

lemma foldl_digits_nonneg:
  "list_all is_digit ds \<Longrightarrow> 0 \<le> a \<Longrightarrow> 0 \<le> foldl (\<lambda>n c. 10 * n + digit_value c) a ds"
proof (induction ds arbitrary: a)
  case Nil
  then show ?case by simp
next
  case (Cons d ds)
  then have "0 \<le> 10 * a + digit_value d" using digit_value_nonneg[of d] by simp
  with Cons show ?case by simp
qed

lemma parseInt_nonneg: "list_all is_digit ds \<Longrightarrow> 0 \<le> parseInt ds"
  by (simp add: parseInt_def foldl_digits_nonneg)

lemma unit_ms_nonneg: "0 \<le> k \<Longrightarrow> 0 \<le> unit_ms u s k"
proof (cases "rx_exec (unit_pattern u) s")
  case None
  then show ?thesis by (simp add: unit_ms_def rx_match_def)
next
  case (Some res)
  assume k: "0 \<le> k"
  obtain cp m t where res: "res = (cp, m, t)" by (cases res) auto
  from rx_exec_unit_pattern[of u s cp m t] Some res obtain ds where
    ds: "cp = [(1, ds)]" "list_all is_digit ds" by auto
  then have "unit_ms u s k = parseInt ds * k"
    using Some res by (simp add: unit_ms_def rx_match_def group_def)
  then show ?thesis using parseInt_nonneg[OF ds(2)] k by simp
qed

lemma unit_ms_no_match: "\<not> rx_test (unit_pattern u) s \<Longrightarrow> unit_ms u s k = 0"
  by (cases "rx_exec (unit_pattern u) s") (simp_all add: rx_test_def unit_ms_def rx_match_def)

lemma parseWaitTime_positive: "parseWaitTime w = Some n \<Longrightarrow> 0 < n"
proof -
  assume a: "parseWaitTime w = Some n"
  then obtain s where w: "w = Some s" by (cases w) (auto simp: parseWaitTime_def)
  let ?total = "0 + unit_ms ''day'' s (24 * 60 * 60 * 1000) + unit_ms ''hour'' s (60 * 60 * 1000)
                  + unit_ms ''min'' s (60 * 1000) + unit_ms ''sec'' s 1000"
  from a w have n: "n = ?total" "?total \<noteq> 0"
    by (auto simp: parseWaitTime_def Let_def split: if_splits)
  have "0 \<le> ?total"
    using unit_ms_nonneg[of "24 * 60 * 60 * 1000" "''day''" s]
      unit_ms_nonneg[of "60 * 60 * 1000" "''hour''" s]
      unit_ms_nonneg[of "60 * 1000" "''min''" s]
      unit_ms_nonneg[of "1000" "''sec''" s] by simp
  with n show ?thesis by simp
qed

section \<open>Properties of the tracker\<close>

subsection \<open>The state after each operation\<close>

lemma saveStatus_providers [simp]:
  "providers (statusCache (snd (saveStatus written t st))) = providers (statusCache st)"
  by (simp add: saveStatus_def Let_def)

lemma saveStatus_disk:
  "disk (snd (saveStatus written t st)) =
     (if written then Stored ((statusCache st)\<lparr>lastUpdated := Some t\<rparr>) else disk st)"
  by (simp add: saveStatus_def Let_def)

lemma saveStatus_result: "fst (saveStatus written t st) = (if written then Inr () else Inl WriteFailed)"
  by (simp add: saveStatus_def Let_def)

lemma set_status_providers [simp]:
  "providers (statusCache (set_status k v st)) = AList.update k v (providers (statusCache st))"
  by (simp add: set_status_def)

lemma set_status_disk [simp]: "disk (set_status k v st) = disk st"
  by (simp add: set_status_def)

lemma emitStatusChange_fields [simp]:
  "statusCache (emitStatusChange k v ty st) = statusCache st"
  "disk (emitStatusChange k v ty st) = disk st"
  by (simp_all add: emitStatusChange_def)

lemma stored_providers:
  "providers (statusCache (snd (stored written t k v ty st))) = AList.update k v (providers (statusCache st))"
  by (cases written) (simp_all add: stored_def saveStatus_def Let_def)

lemma stored_disk:
  "disk (snd (stored written t k v ty st)) =
     (if written then Stored ((statusCache (set_status k v st))\<lparr>lastUpdated := Some t\<rparr>) else disk st)"
  by (cases written) (simp_all add: stored_def saveStatus_def Let_def)

lemma stored_result:
  "fst (stored written t k v ty st) = (if written then Inr v else Inl WriteFailed)"
  by (cases written) (simp_all add: stored_def saveStatus_def Let_def)

lemma markUsageLimit_stored:
  "valid_time (now + usage_limit_wait cfg info) \<Longrightarrow>
   markUsageLimit cfg written now t k info st =
     stored written t k
       (usage_limit_status now (now + usage_limit_wait cfg info) info (map_of (providers (statusCache st)) k))
       ''usage-limit'' st"
  by (simp add: markUsageLimit_def toISOString_def stored_def Let_def)

lemma markUsageLimit_invalid:
  "\<not> valid_time (now + usage_limit_wait cfg info) \<Longrightarrow>
   markUsageLimit cfg written now t k info st = (Inl RangeError, st)"
  by (simp add: markUsageLimit_def toISOString_def)

lemma markRateLimited_stored:
  "valid_time (now + defaultRateLimitWait cfg) \<Longrightarrow>
   markRateLimited cfg written now t k st =
     stored written t k
       (rate_limit_status now (now + defaultRateLimitWait cfg) (map_of (providers (statusCache st)) k))
       ''rate-limit'' st"
  by (simp add: markRateLimited_def toISOString_def stored_def Let_def)

lemma markRateLimited_invalid:
  "\<not> valid_time (now + defaultRateLimitWait cfg) \<Longrightarrow>
   markRateLimited cfg written now t k st = (Inl RangeError, st)"
  by (simp add: markRateLimited_def toISOString_def)

lemma markAvailable_stored:
  "markAvailable written t k st = stored written t k (recovered_status t) ''recovered'' st"
  by (simp add: markAvailable_def stored_def Let_def)

subsection \<open>The invariant is preserved\<close>

lemma set_update_subset: "set (AList.update k v al) \<subseteq> insert (k, v) (set al)"
  by (induction al) auto

lemma list_all_update:
  "list_all P al \<Longrightarrow> P (k, v) \<Longrightarrow> list_all P (AList.update k v al)"
  using set_update_subset[of k v al] by (auto simp: list_all_iff)

lemma status_invariant_available [simp]: "status_invariant (provider_available t)"
  by (simp add: status_invariant_def provider_available_def)

lemma status_invariant_recovered [simp]: "status_invariant (recovered_status t)"
  by (simp add: status_invariant_def recovered_status_def provider_available_def)

lemma status_invariant_usage [simp]: "status_invariant (usage_limit_status now r info prev)"
  by (simp add: status_invariant_def usage_limit_status_def)

lemma status_invariant_rate [simp]: "status_invariant (rate_limit_status now r prev)"
  by (simp add: status_invariant_def rate_limit_status_def)

lemma sweep_invariant:
  "list_all (\<lambda>entry. status_invariant (snd entry)) es \<Longrightarrow>
   list_all (\<lambda>entry. status_invariant (snd entry)) (fst (sweep now t es))"
  by (induction es) (auto simp: Let_def split: prod.splits option.splits)

lemma cache_invariant_lastUpdated [simp]:
  "cache_invariant (c\<lparr>lastUpdated := u\<rparr>) = cache_invariant c"
  by (simp add: cache_invariant_def)

lemma cache_invariant_empty [simp]: "cache_invariant empty_cache"
  by (simp add: cache_invariant_def empty_cache_def)

lemma stored_invariant:
  assumes "tracker_invariant st" "status_invariant v"
  shows "tracker_invariant (snd (stored written t k v ty st))"
proof -
  have c: "cache_invariant (statusCache (snd (stored written t k v ty st)))"
    using assms by (simp add: cache_invariant_def stored_providers tracker_invariant_def list_all_update)
  have "cache_invariant (statusCache (set_status k v st))"
    using assms by (simp add: cache_invariant_def tracker_invariant_def list_all_update)
  then have d: "case disk (snd (stored written t k v ty st)) of Stored c \<Rightarrow> cache_invariant c | _ \<Rightarrow> True"
    using assms(1) by (simp add: stored_disk tracker_invariant_def)
  from c d show ?thesis by (simp add: tracker_invariant_def)
qed

lemma persisted_invariant: "tracker_invariant st \<Longrightarrow> cache_invariant (persisted st)"
  by (auto simp: tracker_invariant_def persisted_def split: status_file.splits)

lemma loadStatus_persisted:
  "(case loadStatus st of Inl e \<Rightarrow> empty_cache | Inr c \<Rightarrow> c) = persisted st"
  by (simp add: loadStatus_def persisted_def split: status_file.splits)

text \<open>The state after init, in terms of the sweep of the persisted map.\<close>

lemma init_unfold:
  "init written now t st =
     (let swept = (persisted st)\<lparr>providers := fst (sweep now t (providers (persisted st)))\<rparr>;
          st1 = st\<lparr>statusCache := swept\<rparr>
      in if snd (sweep now t (providers (persisted st))) then
           (if written then (Inr (swept\<lparr>lastUpdated := Some t\<rparr>),
                             st1\<lparr>statusCache := swept\<lparr>lastUpdated := Some t\<rparr>,
                                 disk := Stored (swept\<lparr>lastUpdated := Some t\<rparr>)\<rparr>)
            else (Inl WriteFailed, st1\<lparr>statusCache := swept\<lparr>lastUpdated := Some t\<rparr>\<rparr>))
         else (Inr swept, st1))"
  by (simp add: init_def loadStatus_persisted saveStatus_def Let_def split: prod.splits)

lemma init_invariant:
  assumes "tracker_invariant st"
  shows "tracker_invariant (snd (init written now t st))"
proof -
  have "cache_invariant ((persisted st)\<lparr>providers := fst (sweep now t (providers (persisted st)))\<rparr>)"
    using persisted_invariant[OF assms] by (simp add: cache_invariant_def sweep_invariant)
  then show ?thesis using assms
    by (simp add: init_unfold Let_def tracker_invariant_def)
qed

lemma markUsageLimit_invariant:
  "tracker_invariant st \<Longrightarrow> tracker_invariant (snd (markUsageLimit cfg written now t k info st))"
  by (cases "valid_time (now + usage_limit_wait cfg info)")
     (simp_all add: markUsageLimit_stored markUsageLimit_invalid stored_invariant)

lemma markRateLimited_invariant:
  "tracker_invariant st \<Longrightarrow> tracker_invariant (snd (markRateLimited cfg written now t k st))"
  by (cases "valid_time (now + defaultRateLimitWait cfg)")
     (simp_all add: markRateLimited_stored markRateLimited_invalid stored_invariant)

lemma markAvailable_invariant:
  "tracker_invariant st \<Longrightarrow> tracker_invariant (snd (markAvailable written t k st))"
  by (simp add: markAvailable_stored stored_invariant)

lemma reachable_invariant: "reachable st \<Longrightarrow> tracker_invariant st"
proof (induction rule: reachable.induct)
  case start
  show ?case by (simp add: tracker_invariant_def new_tracker_def)
next
  case (restart st)
  then show ?case by (simp add: tracker_invariant_def)
next
  case (init st written now t)
  then show ?case by (simp add: init_invariant)
next
  case (usage_limit st cfg written now t providerId info)
  then show ?case by (simp add: markUsageLimit_invariant)
next
  case (rate_limited st cfg written now t providerId)
  then show ?case by (simp add: markRateLimited_invariant)
next
  case (recovered st written t providerId)
  then show ?case by (simp add: markAvailable_invariant)
qed

lemma getStatus_invariant:
  "cache_invariant (statusCache st) \<Longrightarrow> status_invariant (getStatus st t k)"
proof (cases "map_of (providers (statusCache st)) k")
  case None
  then show ?thesis by (simp add: getStatus_def)
next
  case (Some s)
  assume "cache_invariant (statusCache st)"
  moreover from Some have "(k, s) \<in> set (providers (statusCache st))" by (rule map_of_SomeD)
  ultimately have "status_invariant s" by (auto simp: cache_invariant_def list_all_iff)
  with Some show ?thesis by (simp add: getStatus_def)
qed

lemma stored_lookup:
  "map_of (providers (statusCache (snd (stored written t k v ty st)))) k = Some v"
  by (simp add: stored_providers update_conv')

lemma usage_limit_wait_default:
  "parseWaitTime (infoWaitTime info) = None \<Longrightarrow> usage_limit_wait cfg info = defaultUsageLimitWait cfg"
  by (simp add: usage_limit_wait_def)

lemma parseWaitTime_falsy: "\<not> truthy w \<Longrightarrow> parseWaitTime w = None"
  by (cases w) (simp_all add: parseWaitTime_def)

subsection \<open>parseWaitTime\<close>

subsection \<open>parseWaitTime is the sum of the components\<close>

lemma lit_rest_iff: "(lit_rest u s \<noteq> None) = starts_with_ci u s"
  by (induction u s rule: lit_rest.induct) simp_all

lemma lit_rest_hd:
  "lit_rest (c # us) x = Some t \<Longrightarrow> \<exists>c' xs. x = c' # xs \<and> canonicalize c = canonicalize c'"
  by (cases x) (auto split: if_splits)

lemma digit_not_unit_letter: "is_digit x \<Longrightarrow> canonicalize x \<notin> set ''DHMS''"
proof -
  have "\<forall>x\<in>set ''0123456789''. canonicalize x \<notin> set ''DHMS''"
    by (simp add: canonicalize_def)
  then show "is_digit x \<Longrightarrow> canonicalize x \<notin> set ''DHMS''"
    unfolding is_digit_def by blast
qed

lemma space_not_unit_letter: "is_space x \<Longrightarrow> canonicalize x \<notin> set ''DHMS''"
proof -
  have "\<forall>x\<in>set [CHR 0x09, CHR 0x0A, CHR 0x0B, CHR 0x0C, CHR 0x0D, CHR '' '', CHR 0xA0].
      canonicalize x \<notin> set ''DHMS''"
    by (simp add: canonicalize_def)
  then show "is_space x \<Longrightarrow> canonicalize x \<notin> set ''DHMS''"
    unfolding is_space_def by blast
qed

lemma space_not_digit: "is_space x \<Longrightarrow> \<not> is_digit x"
proof -
  have "\<forall>x\<in>set [CHR 0x09, CHR 0x0A, CHR 0x0B, CHR 0x0C, CHR 0x0D, CHR '' '', CHR 0xA0].
      x \<notin> set ''0123456789''"
    by simp
  then show "is_space x \<Longrightarrow> \<not> is_digit x"
    unfolding is_space_def is_digit_def by blast
qed

lemma unit_word_hd:
  assumes "unit_word u"
  shows "\<exists>c us. u = c # us \<and> canonicalize c \<in> set ''DHMS''"
proof -
  from assms consider "u = ''day''" | "u = ''hour''" | "u = ''min''" | "u = ''sec''"
    by (auto simp: unit_word_def)
  then show ?thesis by cases (simp_all add: canonicalize_def)
qed

lemma run_rep_cls_Cons:
  "run (Rep g lo None (Cls k)) (cp, c # cs) =
     (let more = (if cclass_ok k c then run (Rep g (lo - 1) None (Cls k)) (cp, cs) else []);
          stop = (if lo = 0 then [(cp, c # cs)] else [])
      in if g then more @ stop else stop @ more)"
  by (subst run.simps(5)) (simp del: run.simps add: run.simps(2) Let_def)

lemma run_rep_cls_Nil:
  "run (Rep g lo None (Cls k)) (cp, []) = (if lo = 0 then [(cp, [])] else [])"
  by (subst run.simps(5)) (simp del: run.simps add: run.simps(2) Let_def)

lemma run_rep_cls_complete:
  "lo \<le> length (takeWhile (cclass_ok k) s) \<Longrightarrow>
     (cp, dropWhile (cclass_ok k) s) \<in> set (run (Rep g lo None (Cls k)) (cp, s))"
proof (induction s arbitrary: lo)
  case Nil
  then show ?case by (simp add: run_rep_cls_Nil del: run.simps)
next
  case (Cons c cs)
  show ?case
  proof (cases "cclass_ok k c")
    case True
    with Cons.prems have "lo - 1 \<le> length (takeWhile (cclass_ok k) cs)" by simp
    from Cons.IH[OF this] True show ?thesis
      by (cases g) (simp_all add: run_rep_cls_Cons Let_def del: run.simps)
  next
    case False
    with Cons.prems show ?thesis
      by (cases g) (simp_all add: run_rep_cls_Cons Let_def del: run.simps)
  qed
qed

lemma take_all_takeWhile:
  "list_all P (take n s) \<Longrightarrow> n \<le> length s \<Longrightarrow> (n < length s \<Longrightarrow> \<not> P (s ! n)) \<Longrightarrow>
     take n s = takeWhile P s \<and> drop n s = dropWhile P s"
proof (induction s arbitrary: n)
  case Nil
  then show ?case by simp
next
  case (Cons a s)
  show ?case
  proof (cases n)
    case 0
    with Cons.prems show ?thesis by simp
  next
    case (Suc m)
    with Cons.prems have "list_all P (take m s)" "m \<le> length s" "m < length s \<Longrightarrow> \<not> P (s ! m)" "P a"
      by simp_all
    with Cons.IH[of m] Suc show ?thesis by simp
  qed
qed

lemma cclass_digit: "cclass_ok (OneOf [Digit]) = is_digit"
  by (rule ext) simp

lemma cclass_space: "cclass_ok (OneOf [Space]) = is_space"
  by (rule ext) simp

lemma run_Seq_mem:
  "(st' \<in> set (run (Seq a b) st)) = (\<exists>st1 \<in> set (run a st). st' \<in> set (run b st1))"
  by (simp only: run.simps(3) set_concat set_map) blast

lemma run_Lit_mem:
  "((cp', t) \<in> set (run (Lit w) (cp, s))) = (cp' = cp \<and> lit_rest w s = Some t)"
  by (cases "lit_rest w s") (auto simp del: lit_rest.simps)

lemma run_Grp_mem:
  "((cp', t) \<in> set (run (Grp n r) (cp, s))) =
     (\<exists>cp1. (cp1, t) \<in> set (run r (cp, s)) \<and> cp' = (n, take (length s - length t) s) # cp1)"
  by (simp only: run.simps(6) set_map) auto

text \<open>Every match of a unit pattern at the start of a text takes the whole digit run, the
  whole run of white space after it, and then the unit word.\<close>

lemma run_unit_exact:
  assumes u: "unit_word u" and m: "(cp', t) \<in> set (run (unit_pattern u) ([], s))"
  shows "cp' = [(1, takeWhile is_digit s)] \<and> takeWhile is_digit s \<noteq> []
         \<and> lit_rest u (dropWhile is_space (dropWhile is_digit s)) = Some t"
proof -
  have up: "unit_pattern u = Seq (Grp 1 (plus digit)) (Seq (star space) (Lit u))"
    by (simp add: unit_pattern_def)
  from m obtain st1 st2 where
    st1: "st1 \<in> set (run (Grp 1 (plus digit)) ([], s))"
    and st2: "st2 \<in> set (run (star space) st1)"
    and l: "(cp', t) \<in> set (run (Lit u) st2)"
    unfolding up run_Seq_mem by blast
  obtain c1 t1 where st1_eq: "st1 = (c1, t1)" by (cases st1)
  obtain c2 t2 where st2_eq: "st2 = (c2, t2)" by (cases st2)
  from st1 have "(c1, t1) \<in> set (run (Grp 1 (Rep True 1 None (Cls (OneOf [Digit])))) ([], s))"
    by (simp only: st1_eq plus_def digit_def)
  then obtain cp1 where
    g: "(cp1, t1) \<in> set (run (Rep True 1 None (Cls (OneOf [Digit]))) ([], s))"
    and c1: "c1 = (1, take (length s - length t1) s) # cp1"
    unfolding run_Grp_mem by blast
  from run_rep_cls[OF g] obtain n where n: "cp1 = []" "1 \<le> n" "n \<le> length s" "t1 = drop n s"
    "list_all is_digit (take n s)" unfolding cclass_digit by blast
  from st2 st1_eq st2_eq have "(c2, t2) \<in> set (run (Rep True 0 None (Cls (OneOf [Space]))) (c1, t1))"
    by (simp only: star_def space_def)
  from run_rep_cls[OF this] obtain k where k: "c2 = c1" "k \<le> length t1" "t2 = drop k t1"
    "list_all is_space (take k t1)" unfolding cclass_space by blast
  from l st2_eq have lr: "cp' = c2" "lit_rest u t2 = Some t" unfolding run_Lit_mem by simp_all
  from unit_word_hd[OF u] obtain c us where cu: "u = c # us" "canonicalize c \<in> set ''DHMS''" by blast
  from lit_rest_hd[of c us t2 t] lr(2) cu obtain c' xs where t2: "t2 = c' # xs"
    "canonicalize c = canonicalize c'" by auto
  from t2 cu have c'd: "\<not> is_digit c'" and c's: "\<not> is_space c'"
    using digit_not_unit_letter[of c'] space_not_unit_letter[of c'] by auto
  have kn: "k < length t1" using k(3) t2(1) by (cases "k < length t1") auto
  have "t1 ! k = c'" using k(3) t2(1) kn by (metis nth_via_drop)
  with c's have sp: "k < length t1 \<Longrightarrow> \<not> is_space (t1 ! k)" by simp
  from take_all_takeWhile[OF k(4) k(2) sp] have ws: "drop k t1 = dropWhile is_space t1" by simp
  have t1ne: "t1 \<noteq> []" using kn by auto
  have nl: "n < length s" using n(4) t1ne by (cases "n < length s") auto
  have "\<not> is_digit (t1 ! 0)"
  proof (cases k)
    case 0
    with \<open>t1 ! k = c'\<close> c'd show ?thesis by simp
  next
    case (Suc k')
    with k(4) t1ne have "is_space (t1 ! 0)" by (cases t1) auto
    then show ?thesis by (rule space_not_digit)
  qed
  moreover have "t1 ! 0 = s ! n" using n(4) nl by (simp add: hd_drop_conv_nth[symmetric] hd_conv_nth[symmetric] t1ne)
  ultimately have "n < length s \<Longrightarrow> \<not> is_digit (s ! n)" by simp
  from take_all_takeWhile[OF n(5) n(3) this] have ds: "take n s = takeWhile is_digit s"
    "drop n s = dropWhile is_digit s" by simp_all
  have "length s - length t1 = n" using n(3,4) by simp
  with c1 n(1) ds have "c1 = [(1, takeWhile is_digit s)]" by simp
  moreover have "takeWhile is_digit s \<noteq> []" using ds(1) n(2,3) by (metis take_eq_Nil not_one_le_zero le_zero_eq list.size(3))
  moreover have "t2 = dropWhile is_space (dropWhile is_digit s)" using k(3) ws n(4) ds(2) by simp
  ultimately show ?thesis using lr k(1) by simp
qed

lemma run_unit_found:
  assumes "takeWhile is_digit s \<noteq> []"
    and "lit_rest u (dropWhile is_space (dropWhile is_digit s)) = Some t"
  shows "run (unit_pattern u) ([], s) \<noteq> []"
proof -
  have up: "unit_pattern u = Seq (Grp 1 (plus digit)) (Seq (star space) (Lit u))"
    by (simp add: unit_pattern_def)
  let ?t1 = "dropWhile is_digit s"
  let ?c1 = "[(1, take (length s - length ?t1) s)]"
  have "1 \<le> length (takeWhile (cclass_ok (OneOf [Digit])) s)"
    using assms(1) unfolding cclass_digit by (cases "takeWhile is_digit s") simp_all
  from run_rep_cls_complete[OF this, of "[]" True]
  have "([], ?t1) \<in> set (run (plus digit) ([], s))"
    by (simp add: plus_def digit_def cclass_digit del: run.simps)
  then have a: "(?c1, ?t1) \<in> set (run (Grp 1 (plus digit)) ([], s))"
    unfolding run_Grp_mem by simp
  have "0 \<le> length (takeWhile (cclass_ok (OneOf [Space])) ?t1)" by simp
  from run_rep_cls_complete[OF this, of ?c1 True]
  have b: "(?c1, dropWhile is_space ?t1) \<in> set (run (star space) (?c1, ?t1))"
    by (simp add: star_def space_def cclass_space del: run.simps)
  have c: "(?c1, t) \<in> set (run (Lit u) (?c1, dropWhile is_space ?t1))"
    unfolding run_Lit_mem using assms(2) by simp
  from a b c have "(?c1, t) \<in> set (run (unit_pattern u) ([], s))"
    unfolding up run_Seq_mem by blast
  then show ?thesis by auto
qed

lemma run_unit_empty: "unit_word u \<Longrightarrow> run (unit_pattern u) ([], []) = []"
proof (rule ccontr)
  assume u: "unit_word u" and "run (unit_pattern u) ([], []) \<noteq> []"
  then obtain cp t where "(cp, t) \<in> set (run (unit_pattern u) ([], []))"
    by (cases "run (unit_pattern u) ([], [])") auto
  from run_unit_exact[OF u this] show False by simp
qed

lemma rx_exec_unit:
  assumes u: "unit_word u"
  shows "map_option fst (rx_exec (unit_pattern u) s) = map_option (\<lambda>ds. [(1, ds)]) (leftmost_number u s)"
proof (induction s)
  case Nil
  show ?case by (simp add: run_unit_empty[OF u])
next
  case (Cons c cs)
  show ?case
  proof (cases "run (unit_pattern u) ([], c # cs)")
    case Nil
    have "\<not> (is_digit c \<and> starts_with_ci u (dropWhile is_space (dropWhile is_digit cs)))"
    proof
      assume h: "is_digit c \<and> starts_with_ci u (dropWhile is_space (dropWhile is_digit cs))"
      then obtain t where "lit_rest u (dropWhile is_space (dropWhile is_digit cs)) = Some t"
        using lit_rest_iff[of u "dropWhile is_space (dropWhile is_digit cs)"] by auto
      with h have "run (unit_pattern u) ([], c # cs) \<noteq> []"
        using run_unit_found[of "c # cs" u t] by simp
      with Nil show False by simp
    qed
    then have "leftmost_number u (c # cs) = leftmost_number u cs" by auto
    moreover from Nil have "rx_exec (unit_pattern u) (c # cs) = rx_exec (unit_pattern u) cs" by simp
    ultimately show ?thesis using Cons.IH by (simp only:)
  next
    case (Cons st rest)
    obtain cp t where st: "st = (cp, t)" by (cases st)
    with Cons have "(cp, t) \<in> set (run (unit_pattern u) ([], c # cs))" by simp
    from run_unit_exact[OF u this]
    have e: "cp = [(1, takeWhile is_digit (c # cs))]" "takeWhile is_digit (c # cs) \<noteq> []"
      "lit_rest u (dropWhile is_space (dropWhile is_digit (c # cs))) = Some t" by simp_all
    from e(2) have d: "is_digit c" by (cases "is_digit c") simp_all
    with e(3) have "starts_with_ci u (dropWhile is_space (dropWhile is_digit cs))"
      using lit_rest_iff[of u "dropWhile is_space (dropWhile is_digit cs)"] by simp
    with d e(1) Cons st show ?thesis by simp
  qed
qed

lemma foldl_decimal:
  "foldl (\<lambda>n c. 10 * n + digit_value c) a ds = a * 10 ^ length ds + decimal ds"
  by (induction ds arbitrary: a) (simp_all add: algebra_simps)

lemma parseInt_decimal: "parseInt ds = decimal ds"
  by (simp add: parseInt_def foldl_decimal)

lemma unit_ms_component: "unit_word u \<Longrightarrow> unit_ms u s k = component u k s"
proof -
  assume u: "unit_word u"
  show ?thesis
  proof (cases "rx_exec (unit_pattern u) s")
    case None
    with rx_exec_unit[OF u, of s] have "leftmost_number u s = None" by simp
    with None show ?thesis by (simp add: unit_ms_def rx_match_def component_def)
  next
    case (Some res)
    obtain cp m t where res: "res = (cp, m, t)" by (cases res)
    with Some rx_exec_unit[OF u, of s] obtain ds where ds: "leftmost_number u s = Some ds" "cp = [(1, ds)]"
      by (cases "leftmost_number u s") auto
    with Some res show ?thesis
      by (simp add: unit_ms_def rx_match_def component_def group_def parseInt_decimal)
  qed
qed

lemma parseWaitTime_summed:
  "parseWaitTime (Some s) = (if summed_components s = 0 then None else Some (summed_components s))"
proof -
  have u: "unit_word ''day''" "unit_word ''hour''" "unit_word ''min''" "unit_word ''sec''"
    by (simp_all add: unit_word_def)
  have e: "summed_components [] = 0"
    by (simp add: summed_components_def component_def)
  show ?thesis
  proof (cases "s = []")
    case True
    with e show ?thesis by (simp add: parseWaitTime_def)
  next
    case False
    then show ?thesis
      by (simp add: parseWaitTime_def Let_def summed_components_def unit_ms_component u)
  qed
qed

text \<open>
  C9. \<open>parseWaitTime\<close> sums the matched day, hour, minute and second components of a
  text to milliseconds and returns \<open>null\<close> when nothing matches: for every text the
  result is the sum of the four components of the grammar, or \<open>null\<close> when that sum is
  0; \<open>parseWaitTime("1 day 2 hours 30 minutes")\<close> is \<open>1 * 86400000 + 2 * 3600000 + 30 *
  60000 = 95400000\<close>; \<open>parseWaitTime("no time here")\<close> and \<open>parseWaitTime(null)\<close> are
  \<open>null\<close>, and so is the result for every text in which no unit has a component.
\<close>

theorem parseWaitTime_sums_components:
  "parseWaitTime (Some s) = (if summed_components s = 0 then None else Some (summed_components s))
   \<and> parseWaitTime (Some ''1 day 2 hours 30 minutes'') = Some (1 * 86400000 + 2 * 3600000 + 30 * 60000)
   \<and> parseWaitTime (Some ''1 day 2 hours 30 minutes'') = Some 95400000
   \<and> parseWaitTime (Some ''Try again in 2 days, 3 HOURS and 15 sec'')
       = Some (2 * 86400000 + 3 * 3600000 + 15 * 1000)
   \<and> parseWaitTime (Some ''no time here'') = None
   \<and> parseWaitTime None = None
   \<and> (leftmost_number ''day'' s = None \<and> leftmost_number ''hour'' s = None
        \<and> leftmost_number ''min'' s = None \<and> leftmost_number ''sec'' s = None
      \<longrightarrow> parseWaitTime (Some s) = None)
   \<and> (\<not> rx_test (unit_pattern ''day'') s \<and> \<not> rx_test (unit_pattern ''hour'') s
        \<and> \<not> rx_test (unit_pattern ''min'') s \<and> \<not> rx_test (unit_pattern ''sec'') s
      \<longrightarrow> parseWaitTime (Some s) = None)"
proof -
  have g: "parseWaitTime (Some s) = (if summed_components s = 0 then None else Some (summed_components s))"
    by (rule parseWaitTime_summed)
  have a: "parseWaitTime (Some ''1 day 2 hours 30 minutes'') = Some 95400000" by code_simp
  have a': "parseWaitTime (Some ''Try again in 2 days, 3 HOURS and 15 sec'') = Some 183615000"
    by code_simp
  have b: "parseWaitTime (Some ''no time here'') = None" by code_simp
  have c: "parseWaitTime None = None" by (simp add: parseWaitTime_def)
  have d: "\<not> rx_test (unit_pattern ''day'') s \<and> \<not> rx_test (unit_pattern ''hour'') s
        \<and> \<not> rx_test (unit_pattern ''min'') s \<and> \<not> rx_test (unit_pattern ''sec'') s
      \<longrightarrow> parseWaitTime (Some s) = None"
    by (simp add: parseWaitTime_def unit_ms_no_match)
  have e: "leftmost_number ''day'' s = None \<and> leftmost_number ''hour'' s = None
        \<and> leftmost_number ''min'' s = None \<and> leftmost_number ''sec'' s = None
      \<longrightarrow> parseWaitTime (Some s) = None"
    by (simp add: g summed_components_def component_def)
  from g a a' b c d e show ?thesis by simp
qed

theorem parseWaitTime_sums_components_witness:
  "leftmost_number ''day'' ''30'' = None \<and> leftmost_number ''hour'' ''30'' = None
   \<and> leftmost_number ''min'' ''30'' = None \<and> leftmost_number ''sec'' ''30'' = None
   \<and> \<not> rx_test (unit_pattern ''day'') ''30'' \<and> \<not> rx_test (unit_pattern ''hour'') ''30''
   \<and> \<not> rx_test (unit_pattern ''min'') ''30'' \<and> \<not> rx_test (unit_pattern ''sec'') ''30''
   \<and> parseWaitTime (Some ''30'') = None
   \<and> summed_components ''90 minutes and 5 seconds'' = 90 * 60000 + 5 * 1000
   \<and> parseWaitTime (Some ''90 minutes and 5 seconds'') = Some 5405000"
proof -
  have l: "leftmost_number ''day'' ''30'' = None \<and> leftmost_number ''hour'' ''30'' = None
   \<and> leftmost_number ''min'' ''30'' = None \<and> leftmost_number ''sec'' ''30'' = None"
    by code_simp
  have h: "\<not> rx_test (unit_pattern ''day'') ''30'' \<and> \<not> rx_test (unit_pattern ''hour'') ''30''
   \<and> \<not> rx_test (unit_pattern ''min'') ''30'' \<and> \<not> rx_test (unit_pattern ''sec'') ''30''"
    by code_simp
  from parseWaitTime_sums_components[of "''30''"] l have n: "parseWaitTime (Some ''30'') = None" by blast
  have sc: "summed_components ''90 minutes and 5 seconds'' = 5405000" by code_simp
  from parseWaitTime_sums_components[of "''90 minutes and 5 seconds''"]
  have "parseWaitTime (Some ''90 minutes and 5 seconds'') =
      (if summed_components ''90 minutes and 5 seconds'' = 0 then None
       else Some (summed_components ''90 minutes and 5 seconds''))" by blast
  with sc have p: "parseWaitTime (Some ''90 minutes and 5 seconds'') = Some 5405000" by simp
  from l h n sc p show ?thesis by simp
qed

text \<open>
  C10. \<open>parseWaitTime\<close> returns \<open>null\<close> or a strictly positive integer, never 0: a text
  whose matched components are all zero, such as \<open>"0 minutes"\<close>, gives \<open>null\<close>, and
  \<open>markUsageLimit\<close> then uses the configured default wait while it stores the raw text.
\<close>

theorem parseWaitTime_never_zero:
  "(case parseWaitTime w of None \<Rightarrow> True | Some n \<Rightarrow> 0 < n)
   \<and> parseWaitTime (Some ''0 minutes'') = None
   \<and> (parseWaitTime (infoWaitTime info) = None \<and> valid_time (now + defaultUsageLimitWait cfg) \<longrightarrow>
        (\<exists>r. map_of (providers (statusCache (snd (markUsageLimit cfg written now t k info st)))) k = Some r
           \<and> unavailableSince r = Some now
           \<and> estimatedRecovery r = Some (now + defaultUsageLimitWait cfg)
           \<and> rawWaitTime r = or_null (infoWaitTime info)))"
proof -
  have a: "case parseWaitTime w of None \<Rightarrow> True | Some n \<Rightarrow> 0 < n"
    using parseWaitTime_positive[of w] by (cases "parseWaitTime w") simp_all
  have b: "parseWaitTime (Some ''0 minutes'') = None" by code_simp
  have c: "parseWaitTime (infoWaitTime info) = None \<and> valid_time (now + defaultUsageLimitWait cfg) \<longrightarrow>
        (\<exists>r. map_of (providers (statusCache (snd (markUsageLimit cfg written now t k info st)))) k = Some r
           \<and> unavailableSince r = Some now
           \<and> estimatedRecovery r = Some (now + defaultUsageLimitWait cfg)
           \<and> rawWaitTime r = or_null (infoWaitTime info))"
  proof
    assume h: "parseWaitTime (infoWaitTime info) = None \<and> valid_time (now + defaultUsageLimitWait cfg)"
    then have w: "usage_limit_wait cfg info = defaultUsageLimitWait cfg"
      by (simp add: usage_limit_wait_default)
    with h have "markUsageLimit cfg written now t k info st =
      stored written t k (usage_limit_status now (now + defaultUsageLimitWait cfg) info
        (map_of (providers (statusCache st)) k)) ''usage-limit'' st"
      using markUsageLimit_stored[of now cfg info written t k st] by simp
    then show "\<exists>r. map_of (providers (statusCache (snd (markUsageLimit cfg written now t k info st)))) k = Some r
           \<and> unavailableSince r = Some now
           \<and> estimatedRecovery r = Some (now + defaultUsageLimitWait cfg)
           \<and> rawWaitTime r = or_null (infoWaitTime info)"
      by (simp add: stored_lookup usage_limit_status_def)
  qed
  from a b c show ?thesis by blast
qed

theorem parseWaitTime_never_zero_witness:
  "parseWaitTime (infoWaitTime zero_minutes) = None
   \<and> valid_time (1000 + defaultUsageLimitWait default_config)
   \<and> (\<exists>r. map_of (providers (statusCache (snd
              (markUsageLimit default_config True 1000 1001 ''codex'' zero_minutes new_tracker))))
            ''codex'' = Some r
         \<and> unavailableSince r = Some 1000
         \<and> estimatedRecovery r = Some (1000 + 86400000)
         \<and> rawWaitTime r = Some ''0 minutes'')"
proof -
  have h1: "parseWaitTime (infoWaitTime zero_minutes) = None" by code_simp
  have h2: "valid_time (1000 + defaultUsageLimitWait default_config)"
    by (simp add: valid_time_def MAX_TIME_def default_config_def)
  have d: "defaultUsageLimitWait default_config = 86400000" by (simp add: default_config_def)
  have o: "or_null (infoWaitTime zero_minutes) = Some ''0 minutes''" by (simp add: zero_minutes_def)
  from parseWaitTime_never_zero[of _ zero_minutes 1000 default_config True 1001 "''codex''" new_tracker]
    h1 h2
  have "\<exists>r. map_of (providers (statusCache (snd
              (markUsageLimit default_config True 1000 1001 ''codex'' zero_minutes new_tracker))))
            ''codex'' = Some r
         \<and> unavailableSince r = Some 1000
         \<and> estimatedRecovery r = Some (1000 + defaultUsageLimitWait default_config)
         \<and> rawWaitTime r = or_null (infoWaitTime zero_minutes)" by blast
  with h1 h2 show ?thesis unfolding d o by blast
qed

subsection \<open>The invariant of the status records\<close>

text \<open>
  C6. In every state that the operations of the tracker reach, for every backend id, the
  record that \<open>getStatus\<close> returns (the stored one, or the one synthesized for an unknown
  id) satisfies: if it is available then its reason is \<open>ok\<close> and it has no estimated
  recovery.
\<close>

theorem status_invariant_reachable:
  "reachable st \<Longrightarrow> available (getStatus st t k) \<Longrightarrow>
     reason (getStatus st t k) = ''ok'' \<and> estimatedRecovery (getStatus st t k) = None"
proof -
  assume r: "reachable st" and a: "available (getStatus st t k)"
  from reachable_invariant[OF r] have "cache_invariant (statusCache st)"
    by (simp add: tracker_invariant_def)
  from getStatus_invariant[OF this, of t k] a show ?thesis
    by (simp add: status_invariant_def)
qed

theorem status_invariant_reachable_witness:
  "reachable recovered_tracker
   \<and> available (getStatus recovered_tracker 3000 ''codex'')
   \<and> reason (getStatus recovered_tracker 3000 ''codex'') = ''ok''
   \<and> estimatedRecovery (getStatus recovered_tracker 3000 ''codex'') = None"
proof -
  have r: "reachable recovered_tracker"
    unfolding recovered_tracker_def limited_tracker_def
    by (intro reachable.recovered reachable.usage_limit reachable.start)
  have a: "available (getStatus recovered_tracker 3000 ''codex'')"
    by (simp add: recovered_tracker_def markAvailable_stored getStatus_def stored_lookup
        recovered_status_def provider_available_def)
  from status_invariant_reachable[OF r a] r a show ?thesis by simp
qed

subsection \<open>markUsageLimit\<close>

lemma next_failureCount_prior:
  "next_failureCount (map_of (providers (statusCache st)) k) = prior_counter st k + 1"
  by (simp add: next_failureCount_def prior_counter_def)

text \<open>
  C8. \<open>markUsageLimit\<close> without a wait time stores a record whose estimated recovery minus
  its unavailable-since time is exactly the configured default wait, and whose failure
  counter is one more than the counter of the previous record (one when there is no
  previous record or it has no counter), whatever the previous state. The sum has to be
  in the range of \<open>Date\<close>; when the write fails the record is in the cache all the same.
\<close>

theorem markUsageLimit_default_wait:
  "\<not> truthy (infoWaitTime info) \<and> valid_time (now + defaultUsageLimitWait cfg) \<longrightarrow>
     (\<exists>r since recovery.
        map_of (providers (statusCache (snd (markUsageLimit cfg written now t k info st)))) k = Some r
        \<and> fst (markUsageLimit cfg written now t k info st) = (if written then Inr r else Inl WriteFailed)
        \<and> unavailableSince r = Some since \<and> estimatedRecovery r = Some recovery
        \<and> recovery - since = defaultUsageLimitWait cfg
        \<and> failureCount r = Some (prior_counter st k + 1))"
proof
  assume h: "\<not> truthy (infoWaitTime info) \<and> valid_time (now + defaultUsageLimitWait cfg)"
  then have w: "usage_limit_wait cfg info = defaultUsageLimitWait cfg"
    by (simp add: usage_limit_wait_default parseWaitTime_falsy)
  let ?r = "usage_limit_status now (now + defaultUsageLimitWait cfg) info
        (map_of (providers (statusCache st)) k)"
  from h w have m: "markUsageLimit cfg written now t k info st = stored written t k ?r ''usage-limit'' st"
    using markUsageLimit_stored[of now cfg info written t k st] by simp
  have "map_of (providers (statusCache (snd (markUsageLimit cfg written now t k info st)))) k = Some ?r"
    by (simp add: m stored_lookup)
  moreover have "fst (markUsageLimit cfg written now t k info st) = (if written then Inr ?r else Inl WriteFailed)"
    by (simp add: m stored_result)
  moreover have "unavailableSince ?r = Some now" "estimatedRecovery ?r = Some (now + defaultUsageLimitWait cfg)"
    "failureCount ?r = Some (prior_counter st k + 1)"
    by (simp_all add: usage_limit_status_def next_failureCount_prior)
  moreover have "(now + defaultUsageLimitWait cfg) - now = defaultUsageLimitWait cfg" by simp
  ultimately show "\<exists>r since recovery.
        map_of (providers (statusCache (snd (markUsageLimit cfg written now t k info st)))) k = Some r
        \<and> fst (markUsageLimit cfg written now t k info st) = (if written then Inr r else Inl WriteFailed)
        \<and> unavailableSince r = Some since \<and> estimatedRecovery r = Some recovery
        \<and> recovery - since = defaultUsageLimitWait cfg
        \<and> failureCount r = Some (prior_counter st k + 1)"
    by blast
qed

lemma limited_tracker_codex:
  "map_of (providers (statusCache limited_tracker)) ''codex'' =
     Some \<lparr>available = False, reason = ''usage-limit'', statusMessage = ''Usage limit exceeded'',
           rawWaitTime = Some ''0 minutes'', unavailableSince = Some 1000,
           estimatedRecovery = Some 86401000, failureCount = Some 1, lastChecked = 1000\<rparr>"
  by code_simp

theorem markUsageLimit_default_wait_witness:
  "\<not> truthy (infoWaitTime second_failure)
   \<and> valid_time (5000 + defaultUsageLimitWait default_config)
   \<and> prior_counter limited_tracker ''codex'' = 1
   \<and> (\<exists>r. map_of (providers (statusCache (snd
              (markUsageLimit default_config True 5000 5001 ''codex'' second_failure limited_tracker))))
            ''codex'' = Some r
         \<and> fst (markUsageLimit default_config True 5000 5001 ''codex'' second_failure limited_tracker) = Inr r
         \<and> unavailableSince r = Some 5000 \<and> estimatedRecovery r = Some (5000 + 86400000)
         \<and> failureCount r = Some 2)"
proof -
  have h1: "\<not> truthy (infoWaitTime second_failure)" by (simp add: second_failure_def)
  have h2: "valid_time (5000 + defaultUsageLimitWait default_config)"
    by (simp add: valid_time_def MAX_TIME_def default_config_def)
  have p: "prior_counter limited_tracker ''codex'' = 1"
    by (simp add: prior_counter_def limited_tracker_codex)
  have d: "defaultUsageLimitWait default_config = 86400000" by (simp add: default_config_def)
  from markUsageLimit_default_wait[of second_failure 5000 default_config True 5001 "''codex''" limited_tracker] h1 h2
  obtain r since recovery where r:
    "map_of (providers (statusCache (snd
        (markUsageLimit default_config True 5000 5001 ''codex'' second_failure limited_tracker)))) ''codex'' = Some r"
    "fst (markUsageLimit default_config True 5000 5001 ''codex'' second_failure limited_tracker) = Inr r"
    "unavailableSince r = Some since" "estimatedRecovery r = Some recovery"
    "recovery - since = defaultUsageLimitWait default_config"
    "failureCount r = Some (prior_counter limited_tracker ''codex'' + 1)"
    by auto
  have "map_of (providers (statusCache (snd
        (markUsageLimit default_config True 5000 5001 ''codex'' second_failure limited_tracker)))) ''codex''
      = Some (usage_limit_status 5000 (5000 + 86400000) second_failure
          (map_of (providers (statusCache limited_tracker)) ''codex''))"
    using h1 h2 d
    by (simp add: markUsageLimit_stored usage_limit_wait_default parseWaitTime_falsy stored_lookup)
  with r(1) have "unavailableSince r = Some 5000" "estimatedRecovery r = Some (5000 + 86400000)"
    by (auto simp: usage_limit_status_def)
  with r p h1 h2 show ?thesis by auto
qed

subsection \<open>init\<close>











subsection \<open>getFallbackProvider\<close>

lemma first_qualifying_append:
  "first_qualifying st t provs (xs @ ys) =
     (case first_qualifying st t provs xs of
        Some r \<Rightarrow> Some r
      | None \<Rightarrow> first_qualifying st t provs ys)"
  by (induction xs) (auto split: option.splits)

lemma first_qualifying_system:
  "first_qualifying st t provs (map (\<lambda>k. (k, ''system'')) (filter (\<lambda>k. k \<noteq> primary) prio))
     = system_fallback st t primary provs prio"
  by (induction prio) (auto split: option.splits)

lemma first_qualifying_task:
  "keyed_by_id provs \<Longrightarrow>
   first_qualifying st t provs
     (case taskId of None \<Rightarrow> []
      | Some tid \<Rightarrow> if tid \<noteq> [] \<and> tid \<noteq> primary then [(tid, ''task'')] else [])
   = task_fallback st t primary provs taskId"
  by (auto simp: task_fallback_def keyed_by_id_def split: option.splits)

lemma first_qualifying_configured:
  "keyed_by_id provs \<Longrightarrow>
   first_qualifying st t provs
     (case provs primary of None \<Rightarrow> []
      | Some p \<Rightarrow> (case fallbackProvider p of None \<Rightarrow> []
                  | Some fid \<Rightarrow> if fid \<noteq> [] then [(fid, ''provider'')] else []))
   = configured_fallback st t primary provs"
  by (auto simp: configured_fallback_def keyed_by_id_def split: option.splits)

lemma getFallbackProvider_refines:
  assumes "keyed_by_id provs"
  shows "getFallbackProvider cfg st t primary provs taskId
           = resolve_fallback cfg st t primary provs taskId"
proof -
  let ?A = "case taskId of None \<Rightarrow> []
      | Some tid \<Rightarrow> if tid \<noteq> [] \<and> tid \<noteq> primary then [(tid, ''task'')] else []"
  let ?B = "case provs primary of None \<Rightarrow> []
      | Some p \<Rightarrow> (case fallbackProvider p of None \<Rightarrow> []
                  | Some fid \<Rightarrow> if fid \<noteq> [] then [(fid, ''provider'')] else [])"
  let ?C = "map (\<lambda>k. (k, ''system'')) (filter (\<lambda>k. k \<noteq> primary) (defaultFallbackPriority cfg))"
  have "resolve_fallback cfg st t primary provs taskId = first_qualifying st t provs (?A @ (?B @ ?C))"
    by (simp add: resolve_fallback_def candidates_def)
  also have "\<dots> = (case first_qualifying st t provs ?A of Some r \<Rightarrow> Some r
      | None \<Rightarrow> first_qualifying st t provs (?B @ ?C))"
    by (rule first_qualifying_append)
  also have "first_qualifying st t provs (?B @ ?C) =
      (case first_qualifying st t provs ?B of Some r \<Rightarrow> Some r
       | None \<Rightarrow> first_qualifying st t provs ?C)"
    by (rule first_qualifying_append)
  finally show ?thesis
    by (simp only: getFallbackProvider_def first_qualifying_system
        first_qualifying_task[OF assms] first_qualifying_configured[OF assms])
qed

lemma first_qualifying_Some:
  "first_qualifying st t provs cs = Some (p, src) \<Longrightarrow>
     \<exists>k. (k, src) \<in> set cs \<and> provs k = Some p \<and> enabled p \<and> isAvailable st t k"
  by (induction cs) (auto split: option.splits if_splits)

lemma first_qualifying_Cons:
  "first_qualifying st t provs (c # rest) =
     (if qualifies st t provs (fst c) then Some (the (provs (fst c)), snd c)
      else first_qualifying st t provs rest)"
  by (cases c) (auto simp: qualifies_def split: option.splits)

lemma first_qualifying_None:
  "(first_qualifying st t provs cs = None) = (\<not> list_ex (\<lambda>c. qualifies st t provs (fst c)) cs)"
proof (induction cs)
  case Nil
  show ?case by simp
next
  case (Cons c cs)
  then show ?case by (simp add: first_qualifying_Cons del: first_qualifying.simps)
qed

lemma task_fallback_first:
  "tid \<noteq> [] \<Longrightarrow> tid \<noteq> primary \<Longrightarrow> provs tid = Some p \<Longrightarrow> enabled p \<Longrightarrow>
   isAvailable st t (provider_id p) \<Longrightarrow>
   getFallbackProvider cfg st t primary provs (Some tid) = Some (p, ''task'')"
  by (simp add: getFallbackProvider_def task_fallback_def)

lemma keyed_mockProviders: "keyed_by_id mockProviders"
  by (auto simp: keyed_by_id_def mockProviders_def mock_provider_def split: if_splits)

text \<open>
  C5. For an object of providers keyed by id, \<open>getFallbackProvider\<close> is the resolution
  order of the specification: the task-level id, then the primary's configured
  fallback, then the priority list without the primary; the first candidate that is
  enabled and available is returned with the source of its tier, so a disabled or
  unavailable candidate is skipped; the result is \<open>null\<close> exactly when no candidate
  qualifies; and a task-level override that is enabled and available wins with source
  \<open>task\<close>, whatever the configured fallback is.
\<close>

theorem getFallbackProvider_resolution:
  "keyed_by_id provs \<longrightarrow>
     getFallbackProvider cfg st t primary provs taskId = resolve_fallback cfg st t primary provs taskId
     \<and> (getFallbackProvider cfg st t primary provs taskId = Some (p, src) \<longrightarrow>
          enabled p \<and> isAvailable st t (provider_id p)
          \<and> (provider_id p, src) \<in> set (candidates cfg primary provs taskId))
     \<and> (getFallbackProvider cfg st t primary provs taskId = None) =
          (\<not> list_ex (\<lambda>c. qualifies st t provs (fst c)) (candidates cfg primary provs taskId))
     \<and> (taskId = Some tid \<and> tid \<noteq> [] \<and> tid \<noteq> primary \<and> provs tid = Some q \<and> enabled q
          \<and> isAvailable st t tid \<longrightarrow>
          getFallbackProvider cfg st t primary provs taskId = Some (q, ''task''))"
proof
  assume k: "keyed_by_id provs"
  have a: "getFallbackProvider cfg st t primary provs taskId = resolve_fallback cfg st t primary provs taskId"
    by (rule getFallbackProvider_refines[OF k])
  have b: "getFallbackProvider cfg st t primary provs taskId = Some (p, src) \<longrightarrow>
          enabled p \<and> isAvailable st t (provider_id p)
          \<and> (provider_id p, src) \<in> set (candidates cfg primary provs taskId)"
  proof
    assume "getFallbackProvider cfg st t primary provs taskId = Some (p, src)"
    then have "first_qualifying st t provs (candidates cfg primary provs taskId) = Some (p, src)"
      by (simp add: a resolve_fallback_def)
    from first_qualifying_Some[OF this] obtain k' where
      "(k', src) \<in> set (candidates cfg primary provs taskId)" "provs k' = Some p" "enabled p"
      "isAvailable st t k'" by blast
    moreover from this k have "provider_id p = k'" by (simp add: keyed_by_id_def)
    ultimately show "enabled p \<and> isAvailable st t (provider_id p)
          \<and> (provider_id p, src) \<in> set (candidates cfg primary provs taskId)" by simp
  qed
  have c: "(getFallbackProvider cfg st t primary provs taskId = None) =
          (\<not> list_ex (\<lambda>c. qualifies st t provs (fst c)) (candidates cfg primary provs taskId))"
    by (simp add: a resolve_fallback_def first_qualifying_None)
  have d: "taskId = Some tid \<and> tid \<noteq> [] \<and> tid \<noteq> primary \<and> provs tid = Some q \<and> enabled q
          \<and> isAvailable st t tid \<longrightarrow>
          getFallbackProvider cfg st t primary provs taskId = Some (q, ''task'')"
  proof
    assume h: "taskId = Some tid \<and> tid \<noteq> [] \<and> tid \<noteq> primary \<and> provs tid = Some q \<and> enabled q
          \<and> isAvailable st t tid"
    with k have "provider_id q = tid" by (simp add: keyed_by_id_def)
    with h show "getFallbackProvider cfg st t primary provs taskId = Some (q, ''task'')"
      by (simp add: task_fallback_first)
  qed
  from a b c d show "getFallbackProvider cfg st t primary provs taskId = resolve_fallback cfg st t primary provs taskId
     \<and> (getFallbackProvider cfg st t primary provs taskId = Some (p, src) \<longrightarrow>
          enabled p \<and> isAvailable st t (provider_id p)
          \<and> (provider_id p, src) \<in> set (candidates cfg primary provs taskId))
     \<and> (getFallbackProvider cfg st t primary provs taskId = None) =
          (\<not> list_ex (\<lambda>c. qualifies st t provs (fst c)) (candidates cfg primary provs taskId))
     \<and> (taskId = Some tid \<and> tid \<noteq> [] \<and> tid \<noteq> primary \<and> provs tid = Some q \<and> enabled q
          \<and> isAvailable st t tid \<longrightarrow>
          getFallbackProvider cfg st t primary provs taskId = Some (q, ''task''))"
    by blast
qed

theorem getFallbackProvider_resolution_witness:
  "keyed_by_id mockProviders
   \<and> mockProviders ''fallback-provider-1'' = Some (mock_provider ''fallback-provider-1'' True None)
   \<and> mockProviders ''configured-fallback'' = Some (mock_provider ''configured-fallback'' True None)
   \<and> enabled (mock_provider ''fallback-provider-1'' True None)
   \<and> enabled (mock_provider ''configured-fallback'' True None)
   \<and> isAvailable new_tracker 0 ''fallback-provider-1''
   \<and> isAvailable new_tracker 0 ''configured-fallback''
   \<and> getFallbackProvider test_config new_tracker 0 ''primary-provider'' mockProviders
        (Some ''fallback-provider-1'') = Some (mock_provider ''fallback-provider-1'' True None, ''task'')
   \<and> (''fallback-provider-1'', ''task'')
        \<in> set (candidates test_config ''primary-provider'' mockProviders (Some ''fallback-provider-1''))"
proof -
  let ?q = "mock_provider ''fallback-provider-1'' True None"
  have k: "keyed_by_id mockProviders" by (rule keyed_mockProviders)
  have m1: "mockProviders ''fallback-provider-1'' = Some ?q"
    and m2: "mockProviders ''configured-fallback'' = Some (mock_provider ''configured-fallback'' True None)"
    by (simp_all add: mockProviders_def)
  have e: "enabled ?q" "enabled (mock_provider ''configured-fallback'' True None)"
    by (simp_all add: mock_provider_def)
  have a: "isAvailable new_tracker 0 ''fallback-provider-1''" "isAvailable new_tracker 0 ''configured-fallback''"
    by (simp_all add: isAvailable_def getStatus_def new_tracker_def empty_cache_def provider_available_def)
  have i: "provider_id ?q = ''fallback-provider-1''" by (simp add: mock_provider_def)
  note th = getFallbackProvider_resolution[of mockProviders test_config new_tracker 0
      "''primary-provider''" "Some ''fallback-provider-1''" ?q "''task''" "''fallback-provider-1''" ?q]
  have prem: "Some ''fallback-provider-1'' = Some ''fallback-provider-1''
      \<and> ''fallback-provider-1'' \<noteq> [] \<and> ''fallback-provider-1'' \<noteq> ''primary-provider''
      \<and> mockProviders ''fallback-provider-1'' = Some ?q \<and> enabled ?q
      \<and> isAvailable new_tracker 0 ''fallback-provider-1''"
    using m1 e(1) a(1) by simp
  from th k prem
  have r: "getFallbackProvider test_config new_tracker 0 ''primary-provider'' mockProviders
        (Some ''fallback-provider-1'') = Some (?q, ''task'')" by blast
  with th k have "(provider_id ?q, ''task'')
        \<in> set (candidates test_config ''primary-provider'' mockProviders (Some ''fallback-provider-1''))"
    by blast
  with i k m1 m2 e a r show ?thesis by simp
qed

section \<open>Properties of the classifier\<close>

lemma first_rule_least:
  "i < length ps \<Longrightarrow> rx_test (pattern (ps ! i)) text \<Longrightarrow>
     \<exists>k\<le>i. first_rule ps text = Some (ps ! k) \<and> rx_test (pattern (ps ! k)) text
        \<and> (\<forall>m<k. \<not> rx_test (pattern (ps ! m)) text)"
proof (induction ps arbitrary: i)
  case Nil
  then show ?case by simp
next
  case (Cons p ps)
  show ?case
  proof (cases "rx_test (pattern p) text")
    case True
    then show ?thesis by (intro exI[of _ 0]) simp
  next
    case False
    with Cons.prems obtain i' where i': "i = Suc i'" by (cases i) auto
    with Cons.prems have "i' < length ps" "rx_test (pattern (ps ! i')) text" by simp_all
    from Cons.IH[OF this] obtain k where k: "k \<le> i'" "first_rule ps text = Some (ps ! k)"
      "rx_test (pattern (ps ! k)) text" "\<forall>m<k. \<not> rx_test (pattern (ps ! m)) text" by blast
    have "\<forall>m<Suc k. \<not> rx_test (pattern ((p # ps) ! m)) text"
      using False k(4) by (auto simp: less_Suc_eq_0_disj)
    with k i' False show ?thesis by (intro exI[of _ "Suc k"]) simp
  qed
qed

lemma first_rule_first:
  assumes "i < length ps" "rx_test (pattern (ps ! i)) text" "\<forall>m<i. \<not> rx_test (pattern (ps ! m)) text"
  shows "first_rule ps text = Some (ps ! i)"
proof -
  from first_rule_least[OF assms(1,2)] obtain k where k: "k \<le> i" "first_rule ps text = Some (ps ! k)"
    "rx_test (pattern (ps ! k)) text" by blast
  with assms(3) have "k = i" by (cases "k < i") auto
  with k show ?thesis by simp
qed

lemma first_rule_empty: "first_rule ERROR_PATTERNS [] = None"
  by code_simp

lemma first_rule_nonempty: "first_rule ERROR_PATTERNS text = Some p \<Longrightarrow> text \<noteq> []"
  using first_rule_empty by auto

lemma analyzeError_matched:
  "first_rule ERROR_PATTERNS text = Some p \<Longrightarrow> analyzeError (Some text) ec = rule_result p text"
  using first_rule_nonempty[of "text" p] by (simp add: analyzeError_def Let_def)

lemma distinct_categories: "distinct (map rule_category ERROR_PATTERNS)"
  by code_simp

lemma length_ERROR_PATTERNS: "length ERROR_PATTERNS = 7"
  by (simp add: ERROR_PATTERNS_def)

lemma category_differs:
  assumes "k < j" "j < length ERROR_PATTERNS"
  shows "rule_category (ERROR_PATTERNS ! k) \<noteq> rule_category (ERROR_PATTERNS ! j)"
proof
  assume eq: "rule_category (ERROR_PATTERNS ! k) = rule_category (ERROR_PATTERNS ! j)"
  from assms have kl: "k < length (map rule_category ERROR_PATTERNS)"
    and jl: "j < length (map rule_category ERROR_PATTERNS)" by simp_all
  from eq assms have "map rule_category ERROR_PATTERNS ! k = map rule_category ERROR_PATTERNS ! j"
    by simp
  with nth_eq_iff_index_eq[OF distinct_categories kl jl] have "k = j" by blast
  with assms show False by simp
qed

text \<open>
  C4. The rules are tried in list order and the outcome of the first rule that matches
  is returned: for a text that matches two rules, \<open>analyzeError\<close> returns the result of
  the first matching rule of the list, which is the earlier of the two or a rule before
  it, and never the category of the later one; a text with billing phrasing, such as
  \<open>billing quota exceeded\<close>, is \<open>quota-exceeded\<close> and not \<open>usage-limit\<close>.
\<close>

theorem analyzeError_first_match:
  "(i < j \<and> j < length ERROR_PATTERNS
      \<and> rx_test (pattern (ERROR_PATTERNS ! i)) text \<and> rx_test (pattern (ERROR_PATTERNS ! j)) text \<longrightarrow>
      (\<exists>k\<le>i. rx_test (pattern (ERROR_PATTERNS ! k)) text
          \<and> (\<forall>m<k. \<not> rx_test (pattern (ERROR_PATTERNS ! m)) text)
          \<and> analyzeError (Some text) ec = rule_result (ERROR_PATTERNS ! k) text)
      \<and> category (analyzeError (Some text) ec) \<noteq> Some (rule_category (ERROR_PATTERNS ! j))
      \<and> ((\<forall>m<i. \<not> rx_test (pattern (ERROR_PATTERNS ! m)) text) \<longrightarrow>
           category (analyzeError (Some text) ec) = Some (rule_category (ERROR_PATTERNS ! i))))
   \<and> category (analyzeError (Some ''billing quota exceeded'') ec) = Some QUOTA_EXCEEDED
   \<and> category (analyzeError (Some ''billing quota exceeded'') ec) \<noteq> Some USAGE_LIMIT"
proof -
  have gen: "i < j \<and> j < length ERROR_PATTERNS
      \<and> rx_test (pattern (ERROR_PATTERNS ! i)) text \<and> rx_test (pattern (ERROR_PATTERNS ! j)) text \<longrightarrow>
      (\<exists>k\<le>i. rx_test (pattern (ERROR_PATTERNS ! k)) text
          \<and> (\<forall>m<k. \<not> rx_test (pattern (ERROR_PATTERNS ! m)) text)
          \<and> analyzeError (Some text) ec = rule_result (ERROR_PATTERNS ! k) text)
      \<and> category (analyzeError (Some text) ec) \<noteq> Some (rule_category (ERROR_PATTERNS ! j))
      \<and> ((\<forall>m<i. \<not> rx_test (pattern (ERROR_PATTERNS ! m)) text) \<longrightarrow>
           category (analyzeError (Some text) ec) = Some (rule_category (ERROR_PATTERNS ! i)))"
  proof
    assume h: "i < j \<and> j < length ERROR_PATTERNS
      \<and> rx_test (pattern (ERROR_PATTERNS ! i)) text \<and> rx_test (pattern (ERROR_PATTERNS ! j)) text"
    then have il: "i < length ERROR_PATTERNS" by simp
    from first_rule_least[OF il] h obtain k where k: "k \<le> i"
      "first_rule ERROR_PATTERNS text = Some (ERROR_PATTERNS ! k)"
      "rx_test (pattern (ERROR_PATTERNS ! k)) text"
      "\<forall>m<k. \<not> rx_test (pattern (ERROR_PATTERNS ! m)) text" by blast
    have res: "analyzeError (Some text) ec = rule_result (ERROR_PATTERNS ! k) text"
      by (rule analyzeError_matched[OF k(2)])
    have c: "category (analyzeError (Some text) ec) = Some (rule_category (ERROR_PATTERNS ! k))"
      by (simp add: res rule_result_def)
    from k(1) h have "k < j" by simp
    from category_differs[OF this] h
    have ne: "category (analyzeError (Some text) ec) \<noteq> Some (rule_category (ERROR_PATTERNS ! j))"
      by (simp add: c)
    have first: "(\<forall>m<i. \<not> rx_test (pattern (ERROR_PATTERNS ! m)) text) \<longrightarrow>
           category (analyzeError (Some text) ec) = Some (rule_category (ERROR_PATTERNS ! i))"
    proof
      assume "\<forall>m<i. \<not> rx_test (pattern (ERROR_PATTERNS ! m)) text"
      with k(1,3) have "k = i" by (cases "k < i") auto
      with c show "category (analyzeError (Some text) ec) = Some (rule_category (ERROR_PATTERNS ! i))"
        by simp
    qed
    from k(1,3,4) res ne first show "(\<exists>k\<le>i. rx_test (pattern (ERROR_PATTERNS ! k)) text
          \<and> (\<forall>m<k. \<not> rx_test (pattern (ERROR_PATTERNS ! m)) text)
          \<and> analyzeError (Some text) ec = rule_result (ERROR_PATTERNS ! k) text)
      \<and> category (analyzeError (Some text) ec) \<noteq> Some (rule_category (ERROR_PATTERNS ! j))
      \<and> ((\<forall>m<i. \<not> rx_test (pattern (ERROR_PATTERNS ! m)) text) \<longrightarrow>
           category (analyzeError (Some text) ec) = Some (rule_category (ERROR_PATTERNS ! i)))"
      by blast
  qed
  have "first_rule ERROR_PATTERNS ''billing quota exceeded'' = Some (ERROR_PATTERNS ! 0)"
    by code_simp
  from analyzeError_matched[OF this, of ec]
  have "category (analyzeError (Some ''billing quota exceeded'') ec) = Some (rule_category (ERROR_PATTERNS ! 0))"
    by (simp add: rule_result_def)
  moreover have "rule_category (ERROR_PATTERNS ! 0) = QUOTA_EXCEEDED" by (simp add: ERROR_PATTERNS_def)
  moreover have "QUOTA_EXCEEDED \<noteq> USAGE_LIMIT" by (simp add: QUOTA_EXCEEDED_def USAGE_LIMIT_def)
  ultimately have ex: "category (analyzeError (Some ''billing quota exceeded'') ec) = Some QUOTA_EXCEEDED"
    "category (analyzeError (Some ''billing quota exceeded'') ec) \<noteq> Some USAGE_LIMIT" by simp_all
  from gen ex show ?thesis by blast
qed

theorem analyzeError_first_match_witness:
  "(0::nat) < 2 \<and> 2 < length ERROR_PATTERNS
   \<and> rx_test (pattern (ERROR_PATTERNS ! 0)) ''billing usage limit reached''
   \<and> rx_test (pattern (ERROR_PATTERNS ! 2)) ''billing usage limit reached''
   \<and> rule_category (ERROR_PATTERNS ! 0) = QUOTA_EXCEEDED
   \<and> rule_category (ERROR_PATTERNS ! 2) = USAGE_LIMIT
   \<and> category (analyzeError (Some ''billing usage limit reached'') (Some 1)) = Some QUOTA_EXCEEDED
   \<and> category (analyzeError (Some ''billing usage limit reached'') (Some 1)) \<noteq> Some USAGE_LIMIT"
proof -
  have l: "(0::nat) < 2 \<and> 2 < length ERROR_PATTERNS" by (simp add: length_ERROR_PATTERNS)
  have m0: "rx_test (pattern (ERROR_PATTERNS ! 0)) ''billing usage limit reached''" by code_simp
  have m2: "rx_test (pattern (ERROR_PATTERNS ! 2)) ''billing usage limit reached''" by code_simp
  have c0: "rule_category (ERROR_PATTERNS ! 0) = QUOTA_EXCEEDED" by (simp add: ERROR_PATTERNS_def)
  have c2: "rule_category (ERROR_PATTERNS ! 2) = USAGE_LIMIT" by (simp add: ERROR_PATTERNS_def)
  have none: "\<forall>m<(0::nat). \<not> rx_test (pattern (ERROR_PATTERNS ! m)) ''billing usage limit reached''" by simp
  from analyzeError_first_match[of 0 2 "''billing usage limit reached''" "Some 1"] l m0 m2 none
  have "category (analyzeError (Some ''billing usage limit reached'') (Some 1)) = Some (rule_category (ERROR_PATTERNS ! 0))"
    "category (analyzeError (Some ''billing usage limit reached'') (Some 1)) \<noteq> Some (rule_category (ERROR_PATTERNS ! 2))"
    by blast+
  with l m0 m2 c0 c2 show ?thesis by simp
qed

lemma analyzeError_unmatched_zero:
  "first_rule ERROR_PATTERNS (or_else errorText []) = None \<Longrightarrow> analyzeError errorText (Some 0) = no_error"
  by (simp add: analyzeError_def Let_def)

lemma analyzeError_falsy_zero: "\<not> truthy errorText \<Longrightarrow> analyzeError errorText (Some 0) = no_error"
  by (simp add: analyzeError_def)

lemma or_else_empty_Some: "or_else errorText [] = s \<Longrightarrow> s \<noteq> [] \<Longrightarrow> errorText = Some s"
  by (cases errorText) (auto split: if_splits)

lemma analyzeError_matched_any:
  assumes "first_rule ERROR_PATTERNS (or_else errorText []) = Some p"
  shows "analyzeError errorText ec = rule_result p (or_else errorText [])"
proof -
  from first_rule_nonempty[OF assms] have "or_else errorText [] \<noteq> []" .
  from or_else_empty_Some[OF refl this] have "errorText = Some (or_else errorText [])" .
  with analyzeError_matched[OF assms, of ec] show ?thesis by simp
qed

lemma analyzeHttpError_2xx:
  "200 \<le> status r \<Longrightarrow> status r < 300 \<Longrightarrow> analyzeHttpError r = no_error"
  by (simp add: analyzeHttpError_def)

text \<open>
  C2, as stated, fails: with exit code 0 a text that matches a rule is still classified
  as an error, since the success check of \<open>analyzeError\<close> also asks for an empty text.
\<close>

theorem success_not_always_no_error_counterexample:
  "hasError (analyzeError (Some ''Rate limit exceeded'') (Some 0))"
proof -
  have "first_rule ERROR_PATTERNS ''Rate limit exceeded'' = Some (ERROR_PATTERNS ! 1)" by code_simp
  from analyzeError_matched[OF this, of "Some 0"] show ?thesis by (simp add: rule_result_def)
qed

text \<open>
  C2, amended. \<open>analyzeHttpError\<close> with a 2xx status returns the no-error
  classification whatever the body, checked first. \<open>analyzeError(text, 0)\<close> returns it
  when the text is empty or absent, checked first, and when no rule matches the text; a
  text that matches a rule gets the result of the first such rule, with \<open>hasError\<close>
  true, also with exit code 0.
\<close>

theorem success_no_error:
  "(200 \<le> status r \<and> status r < 300 \<longrightarrow> analyzeHttpError r = no_error)
   \<and> (\<not> truthy errorText \<longrightarrow> analyzeError errorText (Some 0) = no_error)
   \<and> (first_rule ERROR_PATTERNS (or_else errorText []) = None \<longrightarrow> analyzeError errorText (Some 0) = no_error)
   \<and> (first_rule ERROR_PATTERNS (or_else errorText []) = Some p \<longrightarrow>
        analyzeError errorText (Some 0) = rule_result p (or_else errorText [])
        \<and> hasError (analyzeError errorText (Some 0)))
   \<and> \<not> hasError no_error"
proof -
  have "first_rule ERROR_PATTERNS (or_else errorText []) = Some p \<longrightarrow>
        analyzeError errorText (Some 0) = rule_result p (or_else errorText [])
        \<and> hasError (analyzeError errorText (Some 0))"
    by (simp add: analyzeError_matched_any rule_result_def)
  moreover have "\<not> hasError no_error" by (simp add: no_error_def)
  ultimately show ?thesis
    using analyzeHttpError_2xx[of r] analyzeError_falsy_zero[of errorText] analyzeError_unmatched_zero[of errorText]
    by blast
qed

theorem success_no_error_witness:
  "200 \<le> status ok_response \<and> status ok_response < 300
   \<and> analyzeHttpError ok_response = no_error
   \<and> \<not> truthy (Some [])
   \<and> analyzeError (Some []) (Some 0) = no_error
   \<and> first_rule ERROR_PATTERNS (or_else (Some ''all tests passed'') []) = None
   \<and> analyzeError (Some ''all tests passed'') (Some 0) = no_error
   \<and> first_rule ERROR_PATTERNS (or_else (Some ''Rate limit exceeded'') []) = Some (ERROR_PATTERNS ! 1)
   \<and> category (analyzeError (Some ''Rate limit exceeded'') (Some 0)) = Some RATE_LIMIT
   \<and> hasError (analyzeError (Some ''Rate limit exceeded'') (Some 0))"
proof -
  have s: "200 \<le> status ok_response \<and> status ok_response < 300" by (simp add: ok_response_def)
  have f: "\<not> truthy (Some [])" by simp
  have n: "first_rule ERROR_PATTERNS (or_else (Some ''all tests passed'') []) = None" by code_simp
  have m: "first_rule ERROR_PATTERNS (or_else (Some ''Rate limit exceeded'') []) = Some (ERROR_PATTERNS ! 1)"
    by code_simp
  have c: "rule_category (ERROR_PATTERNS ! 1) = RATE_LIMIT" by (simp add: ERROR_PATTERNS_def)
  from success_no_error[of ok_response] s have a1: "analyzeHttpError ok_response = no_error" by blast
  from success_no_error[of _ "Some []"] f have a2: "analyzeError (Some []) (Some 0) = no_error" by blast
  from success_no_error[of _ "Some ''all tests passed''"] n
  have a3: "analyzeError (Some ''all tests passed'') (Some 0) = no_error" by blast
  from success_no_error[of _ "Some ''Rate limit exceeded''" "ERROR_PATTERNS ! 1"] m
  have a4: "analyzeError (Some ''Rate limit exceeded'') (Some 0)
      = rule_result (ERROR_PATTERNS ! 1) (or_else (Some ''Rate limit exceeded'') [])"
    "hasError (analyzeError (Some ''Rate limit exceeded'') (Some 0))" by blast+
  from a4(1) c have a5: "category (analyzeError (Some ''Rate limit exceeded'') (Some 0)) = Some RATE_LIMIT"
    by (simp add: rule_result_def)
  from s f n m a1 a2 a3 a4(2) a5 show ?thesis by blast
qed

lemma analyzeHttpError_precedence:
  "status r = 429 \<Longrightarrow> hasError (analyzeHttpError r) \<and> category (analyzeHttpError r) = Some RATE_LIMIT"
  "status r = 401 \<or> status r = 403 \<Longrightarrow>
     hasError (analyzeHttpError r) \<and> category (analyzeHttpError r) = Some AUTH_ERROR"
  "\<not> (200 \<le> status r \<and> status r < 300) \<Longrightarrow> status r \<notin> {429, 401, 403} \<Longrightarrow> body r \<noteq> [] \<Longrightarrow>
     analyzeHttpError r = analyzeError (Some (body r)) None"
  "\<not> (200 \<le> status r \<and> status r < 300) \<Longrightarrow> status r \<notin> {429, 401, 403} \<Longrightarrow> body r = [] \<Longrightarrow>
     hasError (analyzeHttpError r) \<and> category (analyzeHttpError r) = Some UNKNOWN"
  by (auto simp: analyzeHttpError_def isRateLimitStatus_def isAuthErrorStatus_def)

lemma server_error_unclassified: "analyzeHttpError server_error = no_error"
proof -
  have "first_rule ERROR_PATTERNS ''Internal Server Error'' = None" by code_simp
  then have "analyzeError (Some ''Internal Server Error'') None = no_error"
    by (simp add: analyzeError_def Let_def)
  then show ?thesis
    by (simp add: analyzeHttpError_def server_error_def isRateLimitStatus_def isAuthErrorStatus_def)
qed

text \<open>
  C3. The precedence of the status codes holds (\<open>analyzeHttpError_precedence\<close>), but not
  every failed response is classified as an error: for status 500 with a body that
  matches no rule, \<open>analyzeHttpError\<close> returns the no-error classification, and
  \<open>executeApiRun\<close> writes it into the terminal record of the failed run.
\<close>

theorem http_failure_without_error:
  "analyzeHttpError server_error = no_error
   \<and> \<not> hasError (analyzeHttpError server_error)
   \<and> category (analyzeHttpError server_error) = None
   \<and> success (run_metadata (executeApiRun cfg written decode pid (Responded server_error_reply)
        startTime now t metadata0 output0 service)) = Some False
   \<and> errorAnalysis (run_metadata (executeApiRun cfg written decode pid (Responded server_error_reply)
        startTime now t metadata0 output0 service)) = Some no_error"
proof -
  have n: "\<not> is_ok (Responded server_error_reply)"
    by (simp add: is_ok_def server_error_reply_def)
  have h: "\<lparr>status = reply_status server_error_reply, statusText = reply_statusText server_error_reply,
      body = (case reply_text server_error_reply of None \<Rightarrow> [] | Some b \<Rightarrow> b)\<rparr> = server_error"
    by (simp add: server_error_reply_def server_error_def)
  have "executeApiRun cfg written decode pid (Responded server_error_reply)
        startTime now t metadata0 output0 service
      = failed_response cfg written pid (Responded server_error_reply) startTime now t metadata0 output0 service"
    using n by (simp add: executeApiRun_def)
  then show ?thesis
    using server_error_unclassified h
    by (simp add: failed_response_def Let_def no_error_def)
qed

section \<open>Properties of the API run\<close>

lemma stream_completed_flag:
  "usedReasoningAsFallback (run_metadata (stream_completed startTime now m service acc)) \<noteq> Some (JBool True)"
  by (simp add: stream_completed_def Let_def)

lemma trim_thinking: "trim ''thinking'' = ''thinking''"
  by code_simp

lemma trim_empty: "trim [] = []"
  by (simp add: trim_def)

lemma reasoning_only_read:
  "read_loop sample_decode (reply_reads reasoning_only_reply) ([], []) = Inr ([], ''thinking'')"
  by code_simp

text \<open>
  C1. For a stream with reasoning tokens only, the final output is the concatenated
  reasoning, but \<open>usedReasoningAsFallback\<close> is not \<open>true\<close>: the flag is computed after
  the output was replaced by the reasoning, so it is \<open>false\<close> here, and no run starting
  from the metadata of \<open>createRun\<close> ever records \<open>true\<close>.
\<close>

theorem reasoning_fallback_flag:
  "usedReasoningAsFallback (run_metadata (executeApiRun cfg written decode pid response
      startTime now t (initial_metadata runId) output0 service)) \<noteq> Some (JBool True)
   \<and> run_output (executeApiRun cfg written sample_decode pid (Responded reasoning_only_reply)
        startTime now t (initial_metadata runId) output0 service) = ''thinking''
   \<and> success (run_metadata (executeApiRun cfg written sample_decode pid (Responded reasoning_only_reply)
        startTime now t (initial_metadata runId) output0 service)) = Some True
   \<and> hadReasoning (run_metadata (executeApiRun cfg written sample_decode pid (Responded reasoning_only_reply)
        startTime now t (initial_metadata runId) output0 service)) = Some True
   \<and> usedReasoningAsFallback (run_metadata (executeApiRun cfg written sample_decode pid
        (Responded reasoning_only_reply) startTime now t (initial_metadata runId) output0 service))
       = Some (JBool False)"
proof -
  let ?run = "executeApiRun cfg written decode pid response
      startTime now t (initial_metadata runId) output0 service"
  have f: "usedReasoningAsFallback (run_metadata (failed_response cfg written pid response startTime now t
      (initial_metadata runId) output0 service)) = None"
    by (simp add: failed_response_def Let_def initial_metadata_def)
  have g: "usedReasoningAsFallback (run_metadata (stream_failed cfg written pid startTime now t
      (initial_metadata runId) output0 service err)) = None" for err
    by (simp add: stream_failed_def Let_def initial_metadata_def)
  have a: "usedReasoningAsFallback (run_metadata ?run) \<noteq> Some (JBool True)"
  proof (cases "is_ok response")
    case False
    then show ?thesis using f by (simp add: executeApiRun_def)
  next
    case True
    then obtain r where r: "response = Responded r" by (cases response) (auto simp: is_ok_def)
    show ?thesis
    proof (cases "read_loop decode (reply_reads r) ([], [])")
      case (Inl err)
      with True r show ?thesis using g[of err] by (simp add: executeApiRun_def)
    next
      case (Inr acc)
      with True r show ?thesis using stream_completed_flag by (simp add: executeApiRun_def)
    qed
  qed
  have ok: "is_ok (Responded reasoning_only_reply)"
    by (simp add: is_ok_def reasoning_only_reply_def)
  have e: "executeApiRun cfg written sample_decode pid (Responded reasoning_only_reply)
        startTime now t (initial_metadata runId) output0 service
      = stream_completed startTime now (initial_metadata runId) service ([], ''thinking'')"
    using ok reasoning_only_read by (simp add: executeApiRun_def)
  have b: "run_output (stream_completed startTime now (initial_metadata runId) service ([], ''thinking''))
      = ''thinking''"
    "success (run_metadata (stream_completed startTime now (initial_metadata runId) service ([], ''thinking'')))
      = Some True"
    "hadReasoning (run_metadata (stream_completed startTime now (initial_metadata runId) service ([], ''thinking'')))
      = Some True"
    "usedReasoningAsFallback (run_metadata (stream_completed startTime now (initial_metadata runId) service
        ([], ''thinking''))) = Some (JBool False)"
    by (simp_all add: stream_completed_def Let_def trim_thinking trim_empty)
  from a b show ?thesis unfolding e by blast
qed

end
